theory Spec2Isabelle
  imports Complex_Main "HOL-Library.Multiset"
begin

chapter \<open>The embedding\<close>

section \<open>Conventions\<close>

text \<open>
  The scoring and validation code of the repository is plain Python over dictionaries,
  lists and floating-point numbers.  The embedding follows it function by function:
  \<^item> a Python \<open>float\<close> (and an \<open>int\<close> used as a score) is a \<^typ>\<open>real\<close>; in the
    scoring and resampling code the arithmetic is the exact one, and in the Bayesian
    engine, where rounding decides whether a division fails, every operation rounds to
    an IEEE double;
  \<^item> a dictionary is an association list in insertion order (its keys are distinct),
    looked up with \<^const>\<open>map_of\<close>; a dictionary that is falsy in Python is the empty list;
  \<^item> a raised exception is the left summand of a result type;
  \<^item> the global generator of module \<open>random\<close> is an explicit state threaded through
    every function that draws from it;
  \<^item> \<open>print\<close> statements are dropped; a value that the source only prints is returned
    in the model where a property is stated about it.
\<close>

datatype py_error = KeyError string | ZeroDivisionError | IndexError | ValueError

type_synonym 'a result = "py_error + 'a"

type_synonym 'a dict = "(string \<times> 'a) list"

definition and_then :: "'a result \<Rightarrow> ('a \<Rightarrow> 'b result) \<Rightarrow> 'b result" where
  "and_then r f = (case r of Inl e \<Rightarrow> Inl e | Inr x \<Rightarrow> f x)"

text \<open>A comprehension or a \<open>for\<close> loop whose body may raise: the first exception ends it.\<close>

fun traverse :: "('a \<Rightarrow> 'b result) \<Rightarrow> 'a list \<Rightarrow> 'b list result" where
  "traverse f [] = Inr []"
| "traverse f (x # xs) =
     and_then (f x) (\<lambda>y. and_then (traverse f xs) (\<lambda>ys. Inr (y # ys)))"

fun fold_result :: "('a \<Rightarrow> 's \<Rightarrow> 's result) \<Rightarrow> 'a list \<Rightarrow> 's \<Rightarrow> 's result" where
  "fold_result f [] s = Inr s"
| "fold_result f (x # xs) s = and_then (f x s) (fold_result f xs)"

text \<open>\<open>d[k]\<close> on a dictionary raises \<open>KeyError\<close> on a missing key; \<open>d.get(k, 0)\<close> does not.\<close>

definition subscript :: "'a dict \<Rightarrow> string \<Rightarrow> 'a result" where
  "subscript d k = (case map_of d k of None \<Rightarrow> Inl (KeyError k) | Some v \<Rightarrow> Inr v)"

definition get0 :: "real dict \<Rightarrow> string \<Rightarrow> real" where
  "get0 d k = (case map_of d k of None \<Rightarrow> 0 | Some v \<Rightarrow> v)"

text \<open>\<open>xs[i]\<close> on a list: a negative index counts from the end, an index out of range raises.\<close>

definition getitem :: "'a list \<Rightarrow> int \<Rightarrow> 'a result" where
  "getitem xs i =
     (let j = (if i < 0 then i + int (length xs) else i) in
      if 0 \<le> j \<and> j < int (length xs) then Inr (xs ! nat j) else Inl IndexError)"

text \<open>\<open>sum(xs) / len(xs)\<close> raises \<open>ZeroDivisionError\<close> on the empty list.\<close>

definition mean :: "real list \<Rightarrow> real result" where
  "mean xs = (if length xs = 0 then Inl ZeroDivisionError
              else Inr (sum_list xs / real (length xs)))"

text \<open>\<open>int(x)\<close> on a float truncates towards zero.\<close>

definition py_int :: "real \<Rightarrow> int" where
  "py_int x = (if 0 \<le> x then \<lfloor>x\<rfloor> else \<lceil>x\<rceil>)"

text \<open>\<open>min(xs)\<close> and \<open>max(xs)\<close> raise \<open>ValueError\<close> on the empty list.\<close>

definition py_min :: "real list \<Rightarrow> real result" where
  "py_min xs = (case xs of [] \<Rightarrow> Inl ValueError | y # ys \<Rightarrow> Inr (fold min ys y))"

definition py_max :: "real list \<Rightarrow> real result" where
  "py_max xs = (case xs of [] \<Rightarrow> Inl ValueError | y # ys \<Rightarrow> Inr (fold max ys y))"

text \<open>
  \<open>sorted(items, key=lambda x: x[1], reverse=True)\<close>: descending by value, and stable
  (equal values keep their input order, also with \<open>reverse=True\<close>).
\<close>

definition sorted_desc :: "real dict \<Rightarrow> real dict" where
  "sorted_desc items = sort_key (\<lambda>x. - snd x) items"

text \<open>\<open>xs.index(x)\<close> raises \<open>ValueError\<close> when \<open>x\<close> is not in the list.\<close>

fun list_index :: "'a list \<Rightarrow> 'a \<Rightarrow> nat result" where
  "list_index [] x = Inl ValueError"
| "list_index (y # ys) x =
     (if y = x then Inr 0 else and_then (list_index ys x) (\<lambda>i. Inr (Suc i)))"

section \<open>The random generator\<close>

text \<open>
  The module seeds the global generator once (\<open>random.seed(42)\<close>) and every engine draws
  from it.  The generator is abstracted to two infinite supplies that are consumed in
  order: \<open>ints\<close> feeds the integer draws (\<open>randint\<close>, \<open>sample\<close>) and \<open>normals\<close> the
  standard normal deviates of \<open>gauss\<close>.  A statement proved for every supply holds for
  the supply the Mersenne Twister produces from seed 42.
\<close>

record rng =
  ints :: "nat \<Rightarrow> nat"
  normals :: "nat \<Rightarrow> real"

definition randbelow :: "nat \<Rightarrow> rng \<Rightarrow> nat \<times> rng" where
  "randbelow n g = (ints g 0 mod n, g\<lparr>ints := \<lambda>i. ints g (Suc i)\<rparr>)"

text \<open>\<open>random.randint(a, b)\<close>: an integer of \<open>[a, b]\<close>; an empty range raises.\<close>

definition randint :: "int \<Rightarrow> int \<Rightarrow> rng \<Rightarrow> (int \<times> rng) result" where
  "randint a b g =
     (if b < a then Inl ValueError
      else let (r, g') = randbelow (nat (b - a + 1)) g in Inr (a + int r, g'))"

text \<open>\<open>random.gauss(mu, sigma)\<close>.\<close>

definition gauss :: "real \<Rightarrow> real \<Rightarrow> rng \<Rightarrow> real \<times> rng" where
  "gauss mu sigma g = (mu + normals g 0 * sigma, g\<lparr>normals := \<lambda>i. normals g (Suc i)\<rparr>)"

text \<open>
  \<open>random.sample(range(n), k)\<close>, the library's selection for a small population:
  \<^verbatim>\<open>
  if not 0 <= k <= n: raise ValueError
  pool = list(population)
  for i in range(k):
      j = randbelow(n - i)
      result[i] = pool[j]
      pool[j] = pool[n - i - 1]
  \<close>
\<close>

fun sample_pool :: "nat \<Rightarrow> nat list \<Rightarrow> nat \<Rightarrow> rng \<Rightarrow> nat list \<times> rng" where
  "sample_pool 0 pool m g = ([], g)"
| "sample_pool (Suc k) pool m g =
     (let (j, g') = randbelow m g;
          x = pool ! j;
          pool' = pool[j := pool ! (m - 1)];
          (rest, g'') = sample_pool k pool' (m - 1) g'
      in (x # rest, g''))"

definition sample_range :: "nat \<Rightarrow> int \<Rightarrow> rng \<Rightarrow> (nat list \<times> rng) result" where
  "sample_range n k g =
     (if 0 \<le> k \<and> k \<le> int n then Inr (sample_pool (nat k) [0 ..< n] n g)
      else Inl ValueError)"

section \<open>Profiles\<close>

text \<open>
  A candidate profile is a dictionary with nine top-level keys.  A key that is absent is
  \<open>None\<close> here, and reading it raises \<open>KeyError\<close>.  For \<open>hattusha_vowels\<close> the tables
  store either a distribution or Python's \<open>None\<close>; the only access is
  \<open>family_data.get("hattusha_vowels")\<close>, which does not tell an absent key from a stored
  \<open>None\<close>, so both are \<open>None\<close> here.
\<close>

record family_data =
  vowels :: "real dict option"
  hattusha_vowels :: "real dict option"
  features :: "bool dict option"
  case_similarity :: "real dict option"
  vocabulary_matches :: "real dict option"
  geographic_plausibility :: "real option"
  timeline_fit :: "real option"
  scholarly_support :: "real option"
  religious_parallel :: "real option"

definition field :: "string \<Rightarrow> 'a option \<Rightarrow> 'a result" where
  "field k x = (case x of None \<Rightarrow> Inl (KeyError k) | Some v \<Rightarrow> Inr v)"

definition LINEAR_A_vowels :: "real dict" where
  "LINEAR_A_vowels = [(''a'', 43.3), (''i'', 20.6), (''u'', 17.5), (''e'', 14.4), (''o'', 4.1)]"

definition LINEAR_A_features :: "bool dict" where
  "LINEAR_A_features =
     [(''agglutinative'', True),
      (''sov_order'', True),
      (''rich_case_system'', True),
      (''no_grammatical_gender'', True),
      (''possessive_enclitics'', True),
      (''essive_case'', True),
      (''no_voice_distinction'', True),
      (''no_aspiration'', True),
      (''verb_suffix_chain'', True),
      (''ergative_alignment'', True),
      (''3_vowel_system'', True),
      (''prenasalized_stops'', True),
      (''derivational_infixing'', True),
      (''transitivity_vowel'', True)]"

definition Hurro_Urartian :: family_data where
  "Hurro_Urartian = \<lparr>
     vowels = Some [(''a'', 30), (''i'', 22), (''u'', 20), (''e'', 18), (''o'', 10)],
     hattusha_vowels = Some [(''a'', 38), (''i'', 25), (''u'', 22), (''e'', 10), (''o'', 5)],
     features = Some
       [(''agglutinative'', True),
        (''sov_order'', True),
        (''rich_case_system'', True),
        (''no_grammatical_gender'', True),
        (''possessive_enclitics'', True),
        (''essive_case'', True),
        (''no_voice_distinction'', True),
        (''no_aspiration'', True),
        (''verb_suffix_chain'', True),
        (''ergative_alignment'', True),
        (''3_vowel_system'', True),
        (''prenasalized_stops'', False),
        (''derivational_infixing'', True),
        (''transitivity_vowel'', True)],
     case_similarity = Some [(''-E'', 100), (''-ME'', 95), (''-TI'', 85), (''-NA'', 85), (''-SI'', 50), (''-JA'', 45)],
     vocabulary_matches = Some
       [(''A-TA-I'', 95), (''SA-SA-RA'', 80), (''DA-KU-NA'', 85), (''I-DA-MA-TE'', 80), (''DU-PU2-RE'', 65), (''U-NA-KA-NA-SI'', 75), (''KU-RO'', 25), (''I-PI-NA-MA'', 0), (''SI-RU-TE'', 0)],
     geographic_plausibility = Some 80,
     timeline_fit = Some 75,
     scholarly_support = Some 70,
     religious_parallel = Some 84 \<rparr>"

definition Semitic :: family_data where
  "Semitic = \<lparr>
     vowels = Some [(''a'', 35), (''i'', 20), (''u'', 15), (''e'', 15), (''o'', 15)],
     hattusha_vowels = None,
     features = Some
       [(''agglutinative'', False),
        (''sov_order'', True),
        (''rich_case_system'', True),
        (''no_grammatical_gender'', False),
        (''possessive_enclitics'', True),
        (''essive_case'', False),
        (''no_voice_distinction'', False),
        (''no_aspiration'', False),
        (''verb_suffix_chain'', False),
        (''ergative_alignment'', False),
        (''3_vowel_system'', True),
        (''prenasalized_stops'', False),
        (''derivational_infixing'', True),
        (''transitivity_vowel'', True)],
     case_similarity = Some [(''-E'', 10), (''-ME'', 60), (''-TI'', 30), (''-NA'', 40), (''-SI'', 20), (''-JA'', 15)],
     vocabulary_matches = Some
       [(''A-TA-I'', 40), (''SA-SA-RA'', 50), (''DA-KU-NA'', 5), (''I-DA-MA-TE'', 15), (''DU-PU2-RE'', 10), (''U-NA-KA-NA-SI'', 5), (''KU-RO'', 10), (''I-PI-NA-MA'', 5), (''SI-RU-TE'', 5)],
     geographic_plausibility = Some 55,
     timeline_fit = Some 70,
     scholarly_support = Some 25,
     religious_parallel = Some 30 \<rparr>"

definition Anatolian_IE :: family_data where
  "Anatolian_IE = \<lparr>
     vowels = Some [(''a'', 28), (''i'', 18), (''u'', 12), (''e'', 22), (''o'', 20)],
     hattusha_vowels = None,
     features = Some
       [(''agglutinative'', True),
        (''sov_order'', True),
        (''rich_case_system'', True),
        (''no_grammatical_gender'', False),
        (''possessive_enclitics'', True),
        (''essive_case'', False),
        (''no_voice_distinction'', False),
        (''no_aspiration'', False),
        (''verb_suffix_chain'', True),
        (''ergative_alignment'', False),
        (''3_vowel_system'', False),
        (''prenasalized_stops'', False),
        (''derivational_infixing'', True),
        (''transitivity_vowel'', False)],
     case_similarity = Some [(''-E'', 15), (''-ME'', 30), (''-TI'', 40), (''-NA'', 50), (''-SI'', 25), (''-JA'', 20)],
     vocabulary_matches = Some
       [(''A-TA-I'', 60), (''SA-SA-RA'', 20), (''DA-KU-NA'', 10), (''I-DA-MA-TE'', 25), (''DU-PU2-RE'', 15), (''U-NA-KA-NA-SI'', 10), (''KU-RO'', 5), (''I-PI-NA-MA'', 5), (''SI-RU-TE'', 10)],
     geographic_plausibility = Some 65,
     timeline_fit = Some 75,
     scholarly_support = Some 30,
     religious_parallel = Some 45 \<rparr>"

definition Kartvelian :: family_data where
  "Kartvelian = \<lparr>
     vowels = Some [(''a'', 25), (''i'', 15), (''u'', 10), (''e'', 25), (''o'', 25)],
     hattusha_vowels = None,
     features = Some
       [(''agglutinative'', True),
        (''sov_order'', True),
        (''rich_case_system'', True),
        (''no_grammatical_gender'', True),
        (''possessive_enclitics'', True),
        (''essive_case'', True),
        (''no_voice_distinction'', False),
        (''no_aspiration'', False),
        (''verb_suffix_chain'', True),
        (''ergative_alignment'', True),
        (''3_vowel_system'', False),
        (''prenasalized_stops'', False),
        (''derivational_infixing'', True),
        (''transitivity_vowel'', True)],
     case_similarity = Some [(''-E'', 45), (''-ME'', 30), (''-TI'', 30), (''-NA'', 35), (''-SI'', 40), (''-JA'', 20)],
     vocabulary_matches = Some
       [(''A-TA-I'', 15), (''SA-SA-RA'', 10), (''DA-KU-NA'', 5), (''I-DA-MA-TE'', 5), (''DU-PU2-RE'', 5), (''U-NA-KA-NA-SI'', 5), (''KU-RO'', 5), (''I-PI-NA-MA'', 5), (''SI-RU-TE'', 5)],
     geographic_plausibility = Some 35,
     timeline_fit = Some 50,
     scholarly_support = Some 10,
     religious_parallel = Some 20 \<rparr>"

definition Egyptian :: family_data where
  "Egyptian = \<lparr>
     vowels = Some [(''a'', 30), (''i'', 20), (''u'', 15), (''e'', 20), (''o'', 15)],
     hattusha_vowels = None,
     features = Some
       [(''agglutinative'', False),
        (''sov_order'', False),
        (''rich_case_system'', False),
        (''no_grammatical_gender'', False),
        (''possessive_enclitics'', True),
        (''essive_case'', False),
        (''no_voice_distinction'', False),
        (''no_aspiration'', False),
        (''verb_suffix_chain'', False),
        (''ergative_alignment'', False),
        (''3_vowel_system'', True),
        (''prenasalized_stops'', False),
        (''derivational_infixing'', False),
        (''transitivity_vowel'', False)],
     case_similarity = Some [(''-E'', 5), (''-ME'', 35), (''-TI'', 10), (''-NA'', 20), (''-SI'', 10), (''-JA'', 5)],
     vocabulary_matches = Some
       [(''A-TA-I'', 20), (''SA-SA-RA'', 15), (''DA-KU-NA'', 5), (''I-DA-MA-TE'', 10), (''DU-PU2-RE'', 5), (''U-NA-KA-NA-SI'', 5), (''KU-RO'', 5), (''I-PI-NA-MA'', 10), (''SI-RU-TE'', 5)],
     geographic_plausibility = Some 60,
     timeline_fit = Some 80,
     scholarly_support = Some 15,
     religious_parallel = Some 35 \<rparr>"

definition Tyrsenian :: family_data where
  "Tyrsenian = \<lparr>
     vowels = Some [(''a'', 30), (''i'', 22), (''u'', 18), (''e'', 18), (''o'', 12)],
     hattusha_vowels = None,
     features = Some
       [(''agglutinative'', True),
        (''sov_order'', True),
        (''rich_case_system'', True),
        (''no_grammatical_gender'', True),
        (''possessive_enclitics'', True),
        (''essive_case'', False),
        (''no_voice_distinction'', True),
        (''no_aspiration'', False),
        (''verb_suffix_chain'', True),
        (''ergative_alignment'', False),
        (''3_vowel_system'', False),
        (''prenasalized_stops'', False),
        (''derivational_infixing'', False),
        (''transitivity_vowel'', False)],
     case_similarity = Some [(''-E'', 30), (''-ME'', 25), (''-TI'', 35), (''-NA'', 45), (''-SI'', 55), (''-JA'', 30)],
     vocabulary_matches = Some
       [(''A-TA-I'', 35), (''SA-SA-RA'', 25), (''DA-KU-NA'', 5), (''I-DA-MA-TE'', 20), (''DU-PU2-RE'', 15), (''U-NA-KA-NA-SI'', 10), (''KU-RO'', 15), (''I-PI-NA-MA'', 5), (''SI-RU-TE'', 5)],
     geographic_plausibility = Some 50,
     timeline_fit = Some 55,
     scholarly_support = Some 25,
     religious_parallel = Some 30 \<rparr>"

definition LANGUAGE_FAMILIES :: "family_data dict" where
  "LANGUAGE_FAMILIES =
     [(''Hurro-Urartian'', Hurro_Urartian),
      (''Semitic'', Semitic),
      (''Anatolian_IE'', Anatolian_IE),
      (''Kartvelian'', Kartvelian),
      (''Egyptian'', Egyptian),
      (''Tyrsenian'', Tyrsenian)]"

section \<open>The scoring pipeline (statistical controls)\<close>

text \<open>
  \<^verbatim>\<open>
  def vowel_distance(target, reference):
      dist = 0
      for v in ["a", "i", "u", "e", "o"]:
          t = target.get(v, 0) / 100.0
          r = reference.get(v, 0) / 100.0
          if t > 0 and r > 0:
              dist += t * math.log2(t / r)
      return dist
  \<close>
\<close>

definition vowel_term :: "real dict \<Rightarrow> real dict \<Rightarrow> string \<Rightarrow> real" where
  "vowel_term target reference v =
     (let t = get0 target v / 100; r = get0 reference v / 100 in
      if t > 0 \<and> r > 0 then t * log 2 (t / r) else 0)"

definition vowel_distance :: "real dict \<Rightarrow> real dict \<Rightarrow> real" where
  "vowel_distance target reference =
     fold (\<lambda>v dist. dist + vowel_term target reference v) [''a'', ''i'', ''u'', ''e'', ''o''] 0"

text \<open>
  \<^verbatim>\<open>
  def score_vowels(family_data):
      """Score vowel system match. Uses Hattusha dialect if available."""
      best_vowels = family_data.get("hattusha_vowels") or family_data["vowels"]
      kl_div = vowel_distance(LINEAR_A["vowels"], best_vowels)
      score = max(0, 100 - kl_div * 500)
      return min(100, score)
  \<close>
  \<open>x or y\<close> is \<open>x\<close> when \<open>x\<close> is truthy: a dictionary that is present and not empty.
\<close>

definition vowel_score_of :: "real dict \<Rightarrow> real" where
  "vowel_score_of best_vowels =
     (let kl_div = vowel_distance LINEAR_A_vowels best_vowels;
          score = max 0 (100 - kl_div * 500)
      in min 100 score)"

definition best_vowels :: "family_data \<Rightarrow> real dict result" where
  "best_vowels fd =
     (case hattusha_vowels fd of
        Some h \<Rightarrow> if h \<noteq> [] then Inr h else field ''vowels'' (vowels fd)
      | None \<Rightarrow> field ''vowels'' (vowels fd))"

definition score_vowels :: "family_data \<Rightarrow> real result" where
  "score_vowels fd = and_then (best_vowels fd) (\<lambda>b. Inr (vowel_score_of b))"

text \<open>
  \<^verbatim>\<open>
  def score_features(family_data):
      matches = 0
      total = len(LINEAR_A["features"])
      for feat, la_val in LINEAR_A["features"].items():
          if family_data["features"].get(feat) == la_val:
              matches += 1
      return (matches / total) * 100
  \<close>
  The target has fourteen features, so the loop body runs and a profile without
  \<open>"features"\<close> raises in its first round.
\<close>

definition feature_matches :: "bool dict \<Rightarrow> bool dict \<Rightarrow> nat" where
  "feature_matches target feats =
     length (filter (\<lambda>(feat, la_val). map_of feats feat = Some la_val) target)"

definition score_features :: "family_data \<Rightarrow> real result" where
  "score_features fd =
     and_then (field ''features'' (features fd)) (\<lambda>feats.
       let matches = feature_matches LINEAR_A_features feats;
           total = length LINEAR_A_features
       in Inr (real matches / real total * 100))"

text \<open>
  \<^verbatim>\<open>
  def score_cases(family_data):
      sims = family_data["case_similarity"]
      return sum(sims.values()) / len(sims)

  def score_vocabulary(family_data):
      matches = family_data["vocabulary_matches"]
      return sum(matches.values()) / len(matches)
  \<close>
\<close>

definition score_cases :: "family_data \<Rightarrow> real result" where
  "score_cases fd =
     and_then (field ''case_similarity'' (case_similarity fd)) (\<lambda>sims. mean (map snd sims))"

definition score_vocabulary :: "family_data \<Rightarrow> real result" where
  "score_vocabulary fd =
     and_then (field ''vocabulary_matches'' (vocabulary_matches fd)) (\<lambda>matches.
       mean (map snd matches))"

text \<open>
  \<^verbatim>\<open>
  def score_family(family_name, family_data):
      scores = {}
      scores["Vowel system"] = score_vowels(family_data)
      scores["Structural features"] = score_features(family_data)
      scores["Case system"] = score_cases(family_data)
      scores["Vocabulary"] = score_vocabulary(family_data)
      scores["Geographic"] = family_data["geographic_plausibility"]
      scores["Timeline"] = family_data["timeline_fit"]
      scores["Scholarly support"] = family_data["scholarly_support"]
      scores["Religious parallel"] = family_data["religious_parallel"]
      overall = sum(scores.values()) / len(scores)
      return scores, overall
  \<close>
\<close>

definition score_family :: "string \<Rightarrow> family_data \<Rightarrow> (real dict \<times> real) result" where
  "score_family family_name fd =
     and_then (score_vowels fd) (\<lambda>s1.
     and_then (score_features fd) (\<lambda>s2.
     and_then (score_cases fd) (\<lambda>s3.
     and_then (score_vocabulary fd) (\<lambda>s4.
     and_then (field ''geographic_plausibility'' (geographic_plausibility fd)) (\<lambda>s5.
     and_then (field ''timeline_fit'' (timeline_fit fd)) (\<lambda>s6.
     and_then (field ''scholarly_support'' (scholarly_support fd)) (\<lambda>s7.
     and_then (field ''religious_parallel'' (religious_parallel fd)) (\<lambda>s8.
       let scores = [(''Vowel system'', s1), (''Structural features'', s2),
                     (''Case system'', s3), (''Vocabulary'', s4), (''Geographic'', s5),
                     (''Timeline'', s6), (''Scholarly support'', s7),
                     (''Religious parallel'', s8)]
       in and_then (mean (map snd scores)) (\<lambda>overall. Inr (scores, overall))))))))))"

section \<open>The scoring pipeline (control validation)\<close>

text \<open>
  The control-validation module repeats \<open>vowel_distance\<close>, \<open>score_vowels\<close>,
  \<open>score_features\<close> and \<open>score_cases\<close> word for word and scores the vocabulary in two
  ways:
  \<^verbatim>\<open>
  def score_vocabulary_original(family_data):
      if "vocabulary_matches" in family_data:
          matches = family_data["vocabulary_matches"]
          return sum(matches.values()) / len(matches)
      return 0

  def score_vocabulary_expanded(family_name):
      total = 0
      count = 0
      for item in EXPANDED_VOCABULARY:
          score = item["scores"].get(family_name, 0)
          total += score
          count += 1
      return total / count if count > 0 else 0
  \<close>
  The expanded vocabulary is a table of thirty-eight items; the model takes the list
  of their \<open>"scores"\<close> dictionaries as a parameter.
\<close>

definition score_vocabulary_original :: "family_data \<Rightarrow> real result" where
  "score_vocabulary_original fd =
     (case vocabulary_matches fd of
        Some matches \<Rightarrow> mean (map snd matches)
      | None \<Rightarrow> Inr 0)"

definition score_vocabulary_expanded :: "real dict list \<Rightarrow> string \<Rightarrow> real" where
  "score_vocabulary_expanded expanded family_name =
     (let total = fold (\<lambda>item total. total + get0 item family_name) expanded 0;
          count = length expanded
      in if count > 0 then total / real count else 0)"

definition score_family_validation ::
  "real dict list \<Rightarrow> string \<Rightarrow> family_data \<Rightarrow> bool \<Rightarrow> (real dict \<times> real) result" where
  "score_family_validation expanded family_name fd use_expanded_vocab =
     and_then (score_vowels fd) (\<lambda>s1.
     and_then (score_features fd) (\<lambda>s2.
     and_then (score_cases fd) (\<lambda>s3.
     and_then (if use_expanded_vocab
               then Inr (score_vocabulary_expanded expanded family_name)
               else score_vocabulary_original fd) (\<lambda>s4.
     and_then (field ''geographic_plausibility'' (geographic_plausibility fd)) (\<lambda>s5.
     and_then (field ''timeline_fit'' (timeline_fit fd)) (\<lambda>s6.
     and_then (field ''scholarly_support'' (scholarly_support fd)) (\<lambda>s7.
     and_then (field ''religious_parallel'' (religious_parallel fd)) (\<lambda>s8.
       let scores = [(''Vowel system'', s1), (''Structural features'', s2),
                     (''Case system'', s3), (''Vocabulary'', s4), (''Geographic'', s5),
                     (''Timeline'', s6), (''Scholarly support'', s7),
                     (''Religious parallel'', s8)]
       in and_then (mean (map snd scores)) (\<lambda>overall. Inr (scores, overall))))))))))"

section \<open>Bootstrap over dimensions\<close>

text \<open>
  \<^verbatim>\<open>
  def run_bootstrap_test(n_iterations=10000):
      family_dim_scores = {}
      for fname, fdata in LANGUAGE_FAMILIES.items():
          scores, _ = score_family(fname, fdata)
          family_dim_scores[fname] = list(scores.values())
      n_dims = len(family_dim_scores["Hurro-Urartian"])
      bootstrap_scores = {fname: [] for fname in LANGUAGE_FAMILIES}
      hurrian_rank = []
      hurrian_wins = 0
      for _ in range(n_iterations):
          indices = [random.randint(0, n_dims - 1) for _ in range(n_dims)]
          iter_scores = {}
          for fname in LANGUAGE_FAMILIES:
              dims = family_dim_scores[fname]
              resampled = [dims[i] for i in indices]
              avg = sum(resampled) / len(resampled)
              iter_scores[fname] = avg
              bootstrap_scores[fname].append(avg)
          ranked = sorted(iter_scores.items(), key=lambda x: x[1], reverse=True)
          rank = [r[0] for r in ranked].index("Hurro-Urartian") + 1
          hurrian_rank.append(rank)
          if rank == 1:
              hurrian_wins += 1
      for fname in sorted(LANGUAGE_FAMILIES.keys(),
                          key=lambda x: -sum(bootstrap_scores[x])/len(bootstrap_scores[x])):
          scores = sorted(bootstrap_scores[fname])
          mean = sum(scores) / len(scores)
          ci_low = scores[int(0.025 * n_iterations)]
          ci_high = scores[int(0.975 * n_iterations)]
          lo = min(scores)
          hi = max(scores)
          print(...)
      win_pct = (hurrian_wins / n_iterations) * 100
      ...
      return bootstrap_scores, win_pct
  \<close>
  The table of families is a parameter of the model; the source reads the global
  \<open>LANGUAGE_FAMILIES\<close>.  The rows of the printed table are part of the model's result.
\<close>

definition family_dim_scores :: "family_data dict \<Rightarrow> real list dict result" where
  "family_dim_scores families =
     traverse (\<lambda>(fname, fdata).
       and_then (score_family fname fdata) (\<lambda>(scores, _). Inr (fname, map snd scores)))
       families"

fun draw_indices :: "nat \<Rightarrow> int \<Rightarrow> rng \<Rightarrow> (int list \<times> rng) result" where
  "draw_indices 0 hi g = Inr ([], g)"
| "draw_indices (Suc k) hi g =
     and_then (randint 0 hi g) (\<lambda>(i, g').
     and_then (draw_indices k hi g') (\<lambda>(rest, g''). Inr (i # rest, g'')))"

definition dict_append :: "real list dict \<Rightarrow> string \<Rightarrow> real \<Rightarrow> real list dict" where
  "dict_append d k x = map (\<lambda>(k', xs). if k' = k then (k', xs @ [x]) else (k', xs)) d"

definition resample_family ::
  "real list dict \<Rightarrow> int list \<Rightarrow> string \<Rightarrow> real dict \<times> real list dict
     \<Rightarrow> (real dict \<times> real list dict) result" where
  "resample_family fds indices fname st =
     (case st of (iter_scores, bootstrap_scores) \<Rightarrow>
        and_then (subscript fds fname) (\<lambda>dims.
        and_then (traverse (getitem dims) indices) (\<lambda>resampled.
        and_then (mean resampled) (\<lambda>avg.
          Inr (iter_scores @ [(fname, avg)], dict_append bootstrap_scores fname avg)))))"

record bootstrap_state =
  bootstrap_scores :: "real list dict"
  hurrian_rank :: "nat list"
  hurrian_wins :: nat

definition bootstrap_iteration ::
  "string list \<Rightarrow> real list dict \<Rightarrow> nat \<Rightarrow> bootstrap_state \<Rightarrow> rng
     \<Rightarrow> (bootstrap_state \<times> rng) result" where
  "bootstrap_iteration names fds n_dims st g =
     and_then (draw_indices n_dims (int n_dims - 1) g) (\<lambda>(indices, g').
     and_then (fold_result (resample_family fds indices) names ([], bootstrap_scores st))
       (\<lambda>(iter_scores, bs).
     let ranked = sorted_desc iter_scores in
     and_then (list_index (map fst ranked) ''Hurro-Urartian'') (\<lambda>i.
     let rank = i + 1 in
       Inr (\<lparr>bootstrap_scores = bs,
             hurrian_rank = hurrian_rank st @ [rank],
             hurrian_wins = (if rank = 1 then hurrian_wins st + 1 else hurrian_wins st)\<rparr>,
            g'))))"

fun bootstrap_loop ::
  "nat \<Rightarrow> string list \<Rightarrow> real list dict \<Rightarrow> nat \<Rightarrow> bootstrap_state \<Rightarrow> rng
     \<Rightarrow> (bootstrap_state \<times> rng) result" where
  "bootstrap_loop 0 names fds n_dims st g = Inr (st, g)"
| "bootstrap_loop (Suc k) names fds n_dims st g =
     and_then (bootstrap_iteration names fds n_dims st g) (\<lambda>(st', g').
       bootstrap_loop k names fds n_dims st' g')"

record ci_row =
  row_family :: string
  row_mean :: real
  row_ci_low :: real
  row_ci_high :: real
  row_lo :: real
  row_hi :: real

definition ci_row_of :: "real list dict \<Rightarrow> nat \<Rightarrow> string \<Rightarrow> ci_row result" where
  "ci_row_of bs n_iterations fname =
     and_then (subscript bs fname) (\<lambda>xs.
     let scores = sort xs in
     and_then (mean scores) (\<lambda>m.
     and_then (getitem scores (py_int (0.025 * real n_iterations))) (\<lambda>ci_low.
     and_then (getitem scores (py_int (0.975 * real n_iterations))) (\<lambda>ci_high.
     and_then (py_min scores) (\<lambda>lo.
     and_then (py_max scores) (\<lambda>hi.
       Inr \<lparr>row_family = fname, row_mean = m, row_ci_low = ci_low,
            row_ci_high = ci_high, row_lo = lo, row_hi = hi\<rparr>))))))"

definition ci_table :: "real list dict \<Rightarrow> nat \<Rightarrow> string list \<Rightarrow> ci_row list result" where
  "ci_table bs n_iterations names =
     and_then (traverse (\<lambda>x. and_then (subscript bs x) (\<lambda>xs.
                              and_then (mean xs) (\<lambda>m. Inr (x, - m)))) names) (\<lambda>keyed.
       traverse (ci_row_of bs n_iterations) (map fst (sort_key snd keyed)))"

record bootstrap_report =
  report_scores :: "real list dict"
  report_table :: "ci_row list"
  report_win_pct :: real

definition run_bootstrap_test ::
  "family_data dict \<Rightarrow> nat \<Rightarrow> rng \<Rightarrow> (bootstrap_report \<times> rng) result" where
  "run_bootstrap_test families n_iterations g =
     and_then (family_dim_scores families) (\<lambda>fds.
     and_then (subscript fds ''Hurro-Urartian'') (\<lambda>hu.
     let n_dims = length hu;
         names = map fst families;
         st0 = \<lparr>bootstrap_scores = map (\<lambda>fname. (fname, [])) names,
                hurrian_rank = [], hurrian_wins = 0\<rparr>
     in
     and_then (bootstrap_loop n_iterations names fds n_dims st0 g) (\<lambda>(st, g').
     and_then (ci_table (bootstrap_scores st) n_iterations names) (\<lambda>table.
       if n_iterations = 0 then Inl ZeroDivisionError
       else Inr (\<lparr>report_scores = bootstrap_scores st,
                  report_table = table,
                  report_win_pct = real (hurrian_wins st) / real n_iterations * 100\<rparr>,
                 g')))))"

section \<open>Perturbation of the sign readings\<close>

text \<open>
  \<^verbatim>\<open>
  feature_names = list(LINEAR_A["features"].keys())
  perturbation_levels = [0.10, 0.15, 0.20, 0.25, 0.30]
  for perturb_pct in perturbation_levels:
      hurrian_wins = 0
      hurrian_scores_list = []
      for _ in range(n_trials):
          perturbed_families = {}
          for fname, fdata in LANGUAGE_FAMILIES.items():
              p_data = dict(fdata)
              p_features = dict(fdata["features"])
              n_flip = int(len(feature_names) * perturb_pct)
              flip_indices = random.sample(range(len(feature_names)), n_flip)
              for idx in flip_indices:
                  feat = feature_names[idx]
                  if feat in p_features:
                      p_features[feat] = not p_features[feat]
              p_data["features"] = p_features
              p_vocab = dict(fdata["vocabulary_matches"])
              for word in p_vocab:
                  noise = random.gauss(0, 10 * perturb_pct)
                  p_vocab[word] = max(0, min(100, p_vocab[word] + noise))
              p_data["vocabulary_matches"] = p_vocab
              p_cases = dict(fdata["case_similarity"])
              for case in p_cases:
                  noise = random.gauss(0, 15 * perturb_pct)
                  p_cases[case] = max(0, min(100, p_cases[case] + noise))
              p_data["case_similarity"] = p_cases
              perturbed_families[fname] = p_data
          scores_this = {}
          for fname, p_data in perturbed_families.items():
              _, overall = score_family(fname, p_data)
              scores_this[fname] = overall
          hurrian_scores_list.append(scores_this.get("Hurro-Urartian", 0))
          ranked = sorted(scores_this.items(), key=lambda x: x[1], reverse=True)
          if ranked[0][0] == "Hurro-Urartian":
              hurrian_wins += 1
      win_pct = (hurrian_wins / n_trials) * 100
      h_mean = sum(hurrian_scores_list) / len(hurrian_scores_list)
      all_results[perturb_pct] = (h_mean, win_pct)
  \<close>
\<close>

definition feature_names :: "string list" where
  "feature_names = map fst LINEAR_A_features"

definition perturbation_levels :: "real list" where
  "perturbation_levels = [0.10, 0.15, 0.20, 0.25, 0.30]"

definition n_flip :: "string list \<Rightarrow> real \<Rightarrow> int" where
  "n_flip names perturb_pct = py_int (real (length names) * perturb_pct)"

definition flip_feature :: "bool dict \<Rightarrow> string \<Rightarrow> bool dict" where
  "flip_feature p_features feat =
     (if map_of p_features feat \<noteq> None
      then map (\<lambda>(k, v). if k = feat then (k, \<not> v) else (k, v)) p_features
      else p_features)"

definition flip_indices :: "string list \<Rightarrow> real \<Rightarrow> rng \<Rightarrow> (nat list \<times> rng) result" where
  "flip_indices names perturb_pct g = sample_range (length names) (n_flip names perturb_pct) g"

definition flip_features :: "string list \<Rightarrow> nat list \<Rightarrow> bool dict \<Rightarrow> bool dict result" where
  "flip_features names idxs p_features =
     fold_result (\<lambda>idx p. and_then (getitem names (int idx)) (\<lambda>feat. Inr (flip_feature p feat)))
       idxs p_features"

fun add_noise :: "real \<Rightarrow> real dict \<Rightarrow> rng \<Rightarrow> real dict \<times> rng" where
  "add_noise sigma [] g = ([], g)"
| "add_noise sigma ((word, v) # rest) g =
     (let (noise, g') = gauss 0 sigma g;
          v' = max 0 (min 100 (v + noise));
          (rest', g'') = add_noise sigma rest g'
      in ((word, v') # rest', g''))"

definition perturb_family ::
  "string list \<Rightarrow> real \<Rightarrow> family_data \<Rightarrow> rng \<Rightarrow> (family_data \<times> rng) result" where
  "perturb_family names perturb_pct fdata g =
     and_then (field ''features'' (features fdata)) (\<lambda>feats.
     and_then (flip_indices names perturb_pct g) (\<lambda>(idxs, g1).
     and_then (flip_features names idxs feats) (\<lambda>p_features.
     and_then (field ''vocabulary_matches'' (vocabulary_matches fdata)) (\<lambda>vocab.
     let (p_vocab, g2) = add_noise (10 * perturb_pct) vocab g1 in
     and_then (field ''case_similarity'' (case_similarity fdata)) (\<lambda>cases.
     let (p_cases, g3) = add_noise (15 * perturb_pct) cases g2 in
       Inr (fdata\<lparr>features := Some p_features,
                  vocabulary_matches := Some p_vocab,
                  case_similarity := Some p_cases\<rparr>, g3))))))"

fun perturb_all ::
  "string list \<Rightarrow> real \<Rightarrow> family_data dict \<Rightarrow> rng \<Rightarrow> (family_data dict \<times> rng) result" where
  "perturb_all names perturb_pct [] g = Inr ([], g)"
| "perturb_all names perturb_pct ((fname, fdata) # rest) g =
     and_then (perturb_family names perturb_pct fdata g) (\<lambda>(p_data, g').
     and_then (perturb_all names perturb_pct rest g') (\<lambda>(ps, g'').
       Inr ((fname, p_data) # ps, g'')))"

definition perturbation_trial ::
  "family_data dict \<Rightarrow> real \<Rightarrow> rng \<Rightarrow> ((real \<times> bool) \<times> rng) result" where
  "perturbation_trial families perturb_pct g =
     and_then (perturb_all feature_names perturb_pct families g) (\<lambda>(perturbed_families, g').
     and_then (traverse (\<lambda>(fname, p_data).
                 and_then (score_family fname p_data) (\<lambda>(_, overall). Inr (fname, overall)))
               perturbed_families) (\<lambda>scores_this.
     and_then (getitem (sorted_desc scores_this) 0) (\<lambda>top.
       Inr ((get0 scores_this ''Hurro-Urartian'', fst top = ''Hurro-Urartian''), g'))))"

fun perturbation_trials ::
  "nat \<Rightarrow> family_data dict \<Rightarrow> real \<Rightarrow> nat \<times> real list \<Rightarrow> rng
     \<Rightarrow> ((nat \<times> real list) \<times> rng) result" where
  "perturbation_trials 0 families perturb_pct acc g = Inr (acc, g)"
| "perturbation_trials (Suc k) families perturb_pct acc g =
     and_then (perturbation_trial families perturb_pct g) (\<lambda>((h, win), g').
       perturbation_trials k families perturb_pct
         (if win then fst acc + 1 else fst acc, snd acc @ [h]) g')"

definition perturbation_level ::
  "family_data dict \<Rightarrow> nat \<Rightarrow> real \<Rightarrow> rng \<Rightarrow> ((real \<times> real \<times> real) \<times> rng) result" where
  "perturbation_level families n_trials perturb_pct g =
     and_then (perturbation_trials n_trials families perturb_pct (0, []) g)
       (\<lambda>((hurrian_wins, hurrian_scores_list), g').
     if n_trials = 0 then Inl ZeroDivisionError
     else let win_pct = real hurrian_wins / real n_trials * 100 in
       and_then (mean hurrian_scores_list) (\<lambda>h_mean.
         Inr ((perturb_pct, h_mean, win_pct), g')))"

fun perturbation_sweep ::
  "family_data dict \<Rightarrow> nat \<Rightarrow> real list \<Rightarrow> rng \<Rightarrow> ((real \<times> real \<times> real) list \<times> rng) result" where
  "perturbation_sweep families n_trials [] g = Inr ([], g)"
| "perturbation_sweep families n_trials (perturb_pct # rest) g =
     and_then (perturbation_level families n_trials perturb_pct g) (\<lambda>(r, g').
     and_then (perturbation_sweep families n_trials rest g') (\<lambda>(rs, g'').
       Inr (r # rs, g'')))"

definition run_perturbation_test ::
  "family_data dict \<Rightarrow> nat \<Rightarrow> rng \<Rightarrow> ((real \<times> real \<times> real) list \<times> rng) result" where
  "run_perturbation_test families n_trials g =
     perturbation_sweep families n_trials perturbation_levels g"

text \<open>
  Python's \<open>round\<close> on a float, in the words of the specification's
  \<open>round(r * feature_count)\<close>: to the nearest integer, a tie to the even one.
\<close>

definition py_round :: "real \<Rightarrow> int" where
  "py_round x =
     (let f = \<lfloor>x\<rfloor> in
      if x - real_of_int f < 1 / 2 then f
      else if x - real_of_int f > 1 / 2 then f + 1
      else if even f then f else f + 1)"

section \<open>Chance control: phonetic similarity of two words\<close>

text \<open>
  \<^verbatim>\<open>
  def phonetic_similarity(w1, w2):
      """Simple phonetic similarity: shared bigrams / max bigrams."""
      bg1 = set(w1[i:i+2] for i in range(len(w1)-1))
      bg2 = set(w2[i:i+2] for i in range(len(w2)-1))
      if not bg1 or not bg2:
          return 0
      shared = len(bg1 & bg2)
      return shared / max(len(bg1), len(bg2))
  \<close>
  A Python set of strings is a duplicate-free list here.
\<close>

definition bigrams :: "string \<Rightarrow> string list" where
  "bigrams w = remdups (map (\<lambda>i. take 2 (drop i w)) [0 ..< length w - 1])"

definition phonetic_similarity :: "string \<Rightarrow> string \<Rightarrow> real" where
  "phonetic_similarity w1 w2 =
     (let bg1 = bigrams w1; bg2 = bigrams w2 in
      if bg1 = [] \<or> bg2 = [] then 0
      else let shared = length (filter (\<lambda>b. b \<in> set bg2) bg1)
           in real shared / real (max (length bg1) (length bg2)))"

text \<open>The set of adjacent character pairs of a word, stated independently of the code.\<close>

definition bigram_set :: "string \<Rightarrow> string set" where
  "bigram_set w = {[w ! i, w ! Suc i] | i. Suc i < length w}"

text \<open>The Jaccard overlap of two sets, in the words of the specification.\<close>

definition jaccard :: "'a set \<Rightarrow> 'a set \<Rightarrow> real" where
  "jaccard A B = real (card (A \<inter> B)) / real (card (A \<union> B))"

section \<open>Double-precision arithmetic\<close>

text \<open>
  For the scores above the exact arithmetic of \<^typ>\<open>real\<close> stands for Python's \<open>float\<close>.
  The Bayesian engine divides by \<open>1 - posterior\<close>, and whether that divisor is zero
  depends on how the operations round, so its arithmetic is modelled as it is computed:
  a finite \<open>float\<close> is an IEEE 754 double, that is \<open>m * 2^e\<close> with \<open>|m| < 2^53\<close> and
  \<open>e \<ge> -1074\<close>, and each operation returns the exact result rounded to the nearest
  double, a tie to the double with the even \<open>m\<close>.

  \<open>round_double\<close> scales the magnitude into \<open>[2^52, 2^53)\<close> by halving or doubling,
  keeping the weight \<open>u\<close> of one unit (a power of two, not below \<open>2^-1074\<close>), and rounds to
  an integer number of units.  Results of magnitude \<open>2^1024\<close> and above, which are
  infinities in Python, are outside the model; the engine does not reach them from a
  posterior of \<open>[0, 1]\<close> and a ratio clamped to at most 5.
\<close>

definition nearest_even :: "real \<Rightarrow> int" where
  "nearest_even x =
     (let f = \<lfloor>x\<rfloor> in
      if x - real_of_int f < 1 / 2 then f
      else if x - real_of_int f > 1 / 2 then f + 1
      else if even f then f else f + 1)"

function scale_down :: "real \<Rightarrow> real \<Rightarrow> real \<times> real" where
  "scale_down x u = (if 2 ^ 53 \<le> x then scale_down (x / 2) (u * 2) else (x, u))"
  by pat_completeness auto
termination
proof (relation "measure (\<lambda>(x, u). nat \<lfloor>x\<rfloor>)")
  show "wf (measure (\<lambda>(x :: real, u :: real). nat \<lfloor>x\<rfloor>))" by simp
next
  fix x u :: real
  assume a: "2 ^ 53 \<le> x"
  then have "1 \<le> x / 2" by simp
  then have "x / 2 + 1 \<le> x" by simp
  then have "\<lfloor>x / 2 + 1\<rfloor> \<le> \<lfloor>x\<rfloor>" by (rule floor_mono)
  then have "\<lfloor>x / 2\<rfloor> + 1 \<le> \<lfloor>x\<rfloor>" by simp
  then have lt: "\<lfloor>x / 2\<rfloor> < \<lfloor>x\<rfloor>" by simp
  have "(0 :: real) \<le> x / 2" using a by simp
  then have "\<lfloor>0 :: real\<rfloor> \<le> \<lfloor>x / 2\<rfloor>" by (rule floor_mono)
  then have nn: "0 \<le> \<lfloor>x / 2\<rfloor>" by simp
  from lt nn have "nat \<lfloor>x / 2\<rfloor> < nat \<lfloor>x\<rfloor>" by linarith
  then show "((x / 2, u * 2), (x, u)) \<in> measure (\<lambda>(x, u). nat \<lfloor>x\<rfloor>)" by simp
qed

declare scale_down.simps [simp del]

fun scale_up :: "nat \<Rightarrow> real \<Rightarrow> real \<Rightarrow> real \<times> real" where
  "scale_up 0 x u = (x, u)"
| "scale_up (Suc k) x u = (if x < 2 ^ 52 then scale_up k (x * 2) (u / 2) else (x, u))"

definition round_double :: "real \<Rightarrow> real" where
  "round_double x =
     (if x = 0 then 0
      else let (y, u) = scale_down \<bar>x\<bar> 1;
               (z, v) = scale_up 1074 y u
           in sgn x * real_of_int (nearest_even z) * v)"

section \<open>Bayesian convergence over evidence domains\<close>

text \<open>
  \<^verbatim>\<open>
  def bayesian_convergence(domain_results):
      prior = 0.10
      posterior = prior
      for name, (score, lr) in domain_results.items():
          lr_clamped = max(0.5, min(lr, 5.0))
          odds = posterior / (1 - posterior)
          odds *= lr_clamped
          posterior = odds / (1 + odds)
          print(... posterior ...)
      ...
      return posterior
  \<close>
  Each of the five arithmetic operations of an update rounds its exact result with
  \<open>rnd\<close>, and each division raises \<open>ZeroDivisionError\<close> on a zero divisor.  The program is
  the engine with \<open>rnd = round_double\<close>, started from the double nearest to \<open>0.10\<close>; with
  \<open>rnd\<close> the identity it is the update in exact arithmetic, of which the specification
  speaks where it calls the combination order-independent mathematically.  The loop is a
  function of the posterior it starts from; the posteriors printed after each domain are
  returned as a trace, in order, with the final posterior that the source returns.  The
  likelihood ratios of a domain list are doubles as they stand, and so are the clamp
  bounds; the model does not round them again.
\<close>

definition bayes_step_with :: "(real \<Rightarrow> real) \<Rightarrow> real \<Rightarrow> real \<Rightarrow> real result" where
  "bayes_step_with rnd posterior lr =
     (let lr_clamped = max 0.5 (min lr 5.0);
          d = rnd (1 - posterior)
      in if d = 0 then Inl ZeroDivisionError
         else let odds = rnd (posterior / d);
                  odds' = rnd (odds * lr_clamped);
                  d' = rnd (1 + odds')
              in if d' = 0 then Inl ZeroDivisionError
                 else Inr (rnd (odds' / d')))"

fun bayes_loop_with ::
  "(real \<Rightarrow> real) \<Rightarrow> real \<Rightarrow> (real \<times> real) dict \<Rightarrow> (real list \<times> real) result" where
  "bayes_loop_with rnd posterior [] = Inr ([], posterior)"
| "bayes_loop_with rnd posterior ((name, (score, lr)) # rest) =
     and_then (bayes_step_with rnd posterior lr) (\<lambda>p.
     and_then (bayes_loop_with rnd p rest) (\<lambda>(trace, final). Inr (p # trace, final)))"

definition prior :: real where
  "prior = round_double 0.10"

definition bayesian_convergence :: "(real \<times> real) dict \<Rightarrow> (real list \<times> real) result" where
  "bayesian_convergence domain_results = bayes_loop_with round_double prior domain_results"



section \<open>Example inputs\<close>

text \<open>
  A candidate whose main distribution is the target's own and whose regional variant is
  far from the target (both sum to 100), a candidate without a vocabulary map, and a
  candidate that has the variant distribution but no main one.
\<close>

definition variant_vowels :: "real dict" where
  "variant_vowels = [(''a'', 21.65), (''i'', 10.3), (''u'', 8.75), (''e'', 7.2), (''o'', 52.1)]"

definition variant_profile :: family_data where
  "variant_profile =
     Hurro_Urartian\<lparr>vowels := Some LINEAR_A_vowels, hattusha_vowels := Some variant_vowels\<rparr>"

definition no_vocabulary_profile :: family_data where
  "no_vocabulary_profile = Hurro_Urartian\<lparr>vocabulary_matches := None\<rparr>"

definition no_vowels_profile :: family_data where
  "no_vowels_profile = Hurro_Urartian\<lparr>vowels := None\<rparr>"

text \<open>
  Evidence domains for the Bayesian engine: twenty-six domains of likelihood ratio 5, two
  domains with the ratios 0.5 and 2.0 in both orders, and two domains whose ratios are
  both above the clamp band.
\<close>

definition strong_domains :: "(real \<times> real) dict" where
  "strong_domains = map (\<lambda>c. ([c], (100, 5))) ''abcdefghijklmnopqrstuvwxyz''"




section \<open>Predicates of the statements\<close>

text \<open>A score of \<open>[0, 100]\<close>, and a profile all of whose stored numbers are such scores.\<close>

definition in_range :: "real \<Rightarrow> bool" where
  "in_range x \<longleftrightarrow> 0 \<le> x \<and> x \<le> 100"

definition values_in_range :: "real dict option \<Rightarrow> bool" where
  "values_in_range d = (case d of None \<Rightarrow> True | Some m \<Rightarrow> list_all in_range (map snd m))"

definition scalar_in_range :: "real option \<Rightarrow> bool" where
  "scalar_in_range x = (case x of None \<Rightarrow> True | Some v \<Rightarrow> in_range v)"

definition entries_in_range :: "family_data \<Rightarrow> bool" where
  "entries_in_range fd \<longleftrightarrow>
     values_in_range (case_similarity fd) \<and> values_in_range (vocabulary_matches fd) \<and>
     scalar_in_range (geographic_plausibility fd) \<and> scalar_in_range (timeline_fit fd) \<and>
     scalar_in_range (scholarly_support fd) \<and> scalar_in_range (religious_parallel fd)"

text \<open>
  A profile that has every section the pipeline reads: a vowel distribution (the main
  one, or a variant that is not empty), the feature map, a case map and a vocabulary map
  with at least one entry each, and the four contextual scores.
\<close>

definition complete_profile :: "family_data \<Rightarrow> bool" where
  "complete_profile fd \<longleftrightarrow>
     (vowels fd \<noteq> None \<or> (hattusha_vowels fd \<noteq> None \<and> hattusha_vowels fd \<noteq> Some [])) \<and>
     features fd \<noteq> None \<and>
     case_similarity fd \<noteq> None \<and> case_similarity fd \<noteq> Some [] \<and>
     vocabulary_matches fd \<noteq> None \<and> vocabulary_matches fd \<noteq> Some [] \<and>
     geographic_plausibility fd \<noteq> None \<and> timeline_fit fd \<noteq> None \<and>
     scholarly_support fd \<noteq> None \<and> religious_parallel fd \<noteq> None"

text \<open>
  The index draw of bootstrap trial \<open>t\<close> when the generator starts in state \<open>g\<close> and every
  trial draws \<open>d\<close> indices of \<open>[0, d - 1]\<close>, and the mean of a dimension-score vector
  resampled at a list of indices.
\<close>

definition trial_indices :: "rng \<Rightarrow> nat \<Rightarrow> nat \<Rightarrow> int list" where
  "trial_indices g d t = map (\<lambda>j. int (ints g (t * d + j) mod d)) [0 ..< d]"

definition resampled_mean :: "real list \<Rightarrow> int list \<Rightarrow> real" where
  "resampled_mean dims idx = sum_list (map (\<lambda>i. dims ! nat i) idx) / real (length idx)"

text \<open>
  The top-level keys that the pipelines read, and what it means for a profile to lack
  one.  The main vowel distribution is read only when the variant is absent, \<open>None\<close> or
  empty, so only then does a profile without \<open>"vowels"\<close> lack something that is read.
  \<open>raised_for\<close> describes the errors of a run: a \<open>KeyError\<close> that names a key the
  profile lacks, or the \<open>ZeroDivisionError\<close> of the mean over an empty case or vocabulary
  map.
\<close>

definition required_sections :: "string list" where
  "required_sections =
     [''vowels'', ''features'', ''case_similarity'', ''vocabulary_matches'',
      ''geographic_plausibility'', ''timeline_fit'', ''scholarly_support'',
      ''religious_parallel'']"

definition vowels_missing :: "family_data \<Rightarrow> bool" where
  "vowels_missing fd \<longleftrightarrow>
     vowels fd = None \<and> (hattusha_vowels fd = None \<or> hattusha_vowels fd = Some [])"

definition section_missing :: "family_data \<Rightarrow> string \<Rightarrow> bool" where
  "section_missing fd k \<longleftrightarrow>
     (k = ''vowels'' \<and> vowels_missing fd) \<or>
     (k = ''features'' \<and> features fd = None) \<or>
     (k = ''case_similarity'' \<and> case_similarity fd = None) \<or>
     (k = ''vocabulary_matches'' \<and> vocabulary_matches fd = None) \<or>
     (k = ''geographic_plausibility'' \<and> geographic_plausibility fd = None) \<or>
     (k = ''timeline_fit'' \<and> timeline_fit fd = None) \<or>
     (k = ''scholarly_support'' \<and> scholarly_support fd = None) \<or>
     (k = ''religious_parallel'' \<and> religious_parallel fd = None)"

definition raised_for :: "family_data \<Rightarrow> py_error \<Rightarrow> bool" where
  "raised_for fd e \<longleftrightarrow>
     (\<exists>k \<in> set required_sections. e = KeyError k \<and> section_missing fd k) \<or>
     (e = ZeroDivisionError \<and> (case_similarity fd = Some [] \<or> vocabulary_matches fd = Some []))"

chapter \<open>Properties\<close>

section \<open>Scores stay in range\<close>

lemma sum_list_bounds:
  assumes "list_all in_range xs"
  shows "0 \<le> sum_list xs \<and> sum_list xs \<le> 100 * real (length xs)"
  using assms by (induction xs) (auto simp: in_range_def algebra_simps)

lemma mean_in_range:
  assumes "list_all in_range xs" and "mean xs = Inr m"
  shows "in_range m"
proof -
  from assms(2) have n: "0 < length xs" and m: "m = sum_list xs / real (length xs)"
    by (auto simp: mean_def split: if_splits)
  from sum_list_bounds [OF assms(1)] n show ?thesis
    unfolding m in_range_def by (simp add: divide_le_eq)
qed

lemma mean_total: "xs \<noteq> [] \<Longrightarrow> \<exists>m. mean xs = Inr m"
  by (simp add: mean_def)

lemma vowel_score_in_range: "in_range (vowel_score_of b)"
  by (simp add: vowel_score_of_def in_range_def Let_def)

lemma score_vowels_in_range: "score_vowels fd = Inr s \<Longrightarrow> in_range s"
  by (cases "best_vowels fd") (auto simp: score_vowels_def and_then_def vowel_score_in_range)

lemma feature_matches_le: "feature_matches target feats \<le> length target"
  by (simp add: feature_matches_def)

lemma score_features_in_range:
  assumes "score_features fd = Inr s"
  shows "in_range s"
proof -
  from assms obtain feats where
    s: "s = real (feature_matches LINEAR_A_features feats) / real (length LINEAR_A_features) * 100"
    by (cases "features fd") (auto simp: score_features_def field_def and_then_def Let_def)
  have l: "length LINEAR_A_features = 14" by (simp add: LINEAR_A_features_def)
  have "feature_matches LINEAR_A_features feats \<le> 14"
    using feature_matches_le [of LINEAR_A_features feats] l by simp
  then show ?thesis unfolding s l in_range_def by simp
qed

lemma score_cases_in_range:
  assumes "values_in_range (case_similarity fd)" and "score_cases fd = Inr s"
  shows "in_range s"
proof (cases "case_similarity fd")
  case None
  with assms(2) show ?thesis by (simp add: score_cases_def field_def and_then_def)
next
  case (Some sims)
  with assms(1) have "list_all in_range (map snd sims)" by (simp add: values_in_range_def)
  moreover from assms(2) Some have "mean (map snd sims) = Inr s"
    by (simp add: score_cases_def field_def and_then_def)
  ultimately show ?thesis by (rule mean_in_range)
qed

lemma score_vocabulary_in_range:
  assumes "values_in_range (vocabulary_matches fd)" and "score_vocabulary fd = Inr s"
  shows "in_range s"
proof (cases "vocabulary_matches fd")
  case None
  with assms(2) show ?thesis by (simp add: score_vocabulary_def field_def and_then_def)
next
  case (Some ms)
  with assms(1) have "list_all in_range (map snd ms)" by (simp add: values_in_range_def)
  moreover from assms(2) Some have "mean (map snd ms) = Inr s"
    by (simp add: score_vocabulary_def field_def and_then_def)
  ultimately show ?thesis by (rule mean_in_range)
qed

lemma field_in_range:
  "scalar_in_range x \<Longrightarrow> field k x = Inr v \<Longrightarrow> in_range v"
  by (cases x) (simp_all add: field_def scalar_in_range_def)

lemma and_then_eq_Inr: "and_then r f = Inr y \<longleftrightarrow> (\<exists>x. r = Inr x \<and> f x = Inr y)"
  by (cases r) (simp_all add: and_then_def)

lemma score_family_Inr:
  assumes "score_family family_name fd = Inr (scores, overall)"
  shows "\<exists>s1 s2 s3 s4 s5 s6 s7 s8.
           score_vowels fd = Inr s1 \<and> score_features fd = Inr s2 \<and> score_cases fd = Inr s3 \<and>
           score_vocabulary fd = Inr s4 \<and>
           field ''geographic_plausibility'' (geographic_plausibility fd) = Inr s5 \<and>
           field ''timeline_fit'' (timeline_fit fd) = Inr s6 \<and>
           field ''scholarly_support'' (scholarly_support fd) = Inr s7 \<and>
           field ''religious_parallel'' (religious_parallel fd) = Inr s8 \<and>
           scores = [(''Vowel system'', s1), (''Structural features'', s2),
                     (''Case system'', s3), (''Vocabulary'', s4), (''Geographic'', s5),
                     (''Timeline'', s6), (''Scholarly support'', s7),
                     (''Religious parallel'', s8)] \<and>
           mean (map snd scores) = Inr overall"
proof -
  from assms have
    "\<exists>s1. score_vowels fd = Inr s1 \<and> (\<exists>s2. score_features fd = Inr s2 \<and>
      (\<exists>s3. score_cases fd = Inr s3 \<and> (\<exists>s4. score_vocabulary fd = Inr s4 \<and>
      (\<exists>s5. field ''geographic_plausibility'' (geographic_plausibility fd) = Inr s5 \<and>
      (\<exists>s6. field ''timeline_fit'' (timeline_fit fd) = Inr s6 \<and>
      (\<exists>s7. field ''scholarly_support'' (scholarly_support fd) = Inr s7 \<and>
      (\<exists>s8. field ''religious_parallel'' (religious_parallel fd) = Inr s8 \<and>
      (\<exists>m. mean (map snd [(''Vowel system'', s1), (''Structural features'', s2),
                     (''Case system'', s3), (''Vocabulary'', s4), (''Geographic'', s5),
                     (''Timeline'', s6), (''Scholarly support'', s7),
                     (''Religious parallel'', s8)]) = Inr m \<and>
           Inr ([(''Vowel system'', s1), (''Structural features'', s2),
                     (''Case system'', s3), (''Vocabulary'', s4), (''Geographic'', s5),
                     (''Timeline'', s6), (''Scholarly support'', s7),
                     (''Religious parallel'', s8)], m) = (Inr (scores, overall) :: (real dict \<times> real) result)))))))))"
    by (simp only: score_family_def and_then_eq_Inr Let_def)
  then obtain s1 s2 s3 s4 s5 s6 s7 s8 m where
    1: "score_vowels fd = Inr s1" and 2: "score_features fd = Inr s2" and
    3: "score_cases fd = Inr s3" and 4: "score_vocabulary fd = Inr s4" and
    5: "field ''geographic_plausibility'' (geographic_plausibility fd) = Inr s5" and
    6: "field ''timeline_fit'' (timeline_fit fd) = Inr s6" and
    7: "field ''scholarly_support'' (scholarly_support fd) = Inr s7" and
    8: "field ''religious_parallel'' (religious_parallel fd) = Inr s8" and
    m: "mean (map snd [(''Vowel system'', s1), (''Structural features'', s2),
                     (''Case system'', s3), (''Vocabulary'', s4), (''Geographic'', s5),
                     (''Timeline'', s6), (''Scholarly support'', s7),
                     (''Religious parallel'', s8)]) = Inr m" and
    e: "Inr ([(''Vowel system'', s1), (''Structural features'', s2),
                     (''Case system'', s3), (''Vocabulary'', s4), (''Geographic'', s5),
                     (''Timeline'', s6), (''Scholarly support'', s7),
                     (''Religious parallel'', s8)], m) = (Inr (scores, overall) :: (real dict \<times> real) result)"
    by blast
  from e have sc: "scores = [(''Vowel system'', s1), (''Structural features'', s2),
                     (''Case system'', s3), (''Vocabulary'', s4), (''Geographic'', s5),
                     (''Timeline'', s6), (''Scholarly support'', s7),
                     (''Religious parallel'', s8)]" and mo: "m = overall"
    by (simp_all only: sum.inject prod.inject)
  from m have "mean (map snd scores) = Inr overall" by (simp only: sc mo)
  with 1 2 3 4 5 6 7 8 sc show ?thesis by blast
qed


lemma score_family_total:
  assumes "complete_profile fd"
  shows "\<exists>scores overall. score_family family_name fd = Inr (scores, overall)"
proof -
  from assms have "\<exists>b. best_vowels fd = Inr b"
    by (cases "hattusha_vowels fd"; cases "vowels fd")
       (auto simp: complete_profile_def best_vowels_def field_def)
  then obtain s1 where 1: "score_vowels fd = Inr s1"
    by (auto simp: score_vowels_def and_then_def)
  from assms obtain s2 where 2: "score_features fd = Inr s2"
    by (cases "features fd")
       (auto simp: complete_profile_def score_features_def field_def and_then_def Let_def)
  from assms obtain sims where c: "case_similarity fd = Some sims" "sims \<noteq> []"
    by (cases "case_similarity fd") (auto simp: complete_profile_def)
  then obtain s3 where 3: "score_cases fd = Inr s3"
    by (simp add: score_cases_def field_def and_then_def mean_def)
  from assms obtain ms where v: "vocabulary_matches fd = Some ms" "ms \<noteq> []"
    by (cases "vocabulary_matches fd") (auto simp: complete_profile_def)
  then obtain s4 where 4: "score_vocabulary fd = Inr s4"
    by (simp add: score_vocabulary_def field_def and_then_def mean_def)
  from assms obtain s5 s6 s7 s8 where
    5: "geographic_plausibility fd = Some s5" and 6: "timeline_fit fd = Some s6" and
    7: "scholarly_support fd = Some s7" and 8: "religious_parallel fd = Some s8"
    by (auto simp: complete_profile_def)
  have "score_family family_name fd =
          Inr ([(''Vowel system'', s1), (''Structural features'', s2),
                (''Case system'', s3), (''Vocabulary'', s4), (''Geographic'', s5),
                (''Timeline'', s6), (''Scholarly support'', s7),
                (''Religious parallel'', s8)],
               (s1 + s2 + s3 + s4 + s5 + s6 + s7 + s8) / 8)"
    by (simp add: score_family_def 1 2 3 4 5 6 7 8 field_def and_then_def mean_def)
  then show ?thesis by blast
qed

text \<open>
  Claim C1.  For every candidate profile whose stored case similarities, vocabulary
  matches and four contextual scores lie in \<open>[0, 100]\<close>: whenever the pipeline returns, it
  returns eight dimension scores, each of them in \<open>[0, 100]\<close>, and their unweighted mean is
  in \<open>[0, 100]\<close>; and for a profile with every section present it does return.  The
  arithmetic is that of the reals.
\<close>

theorem score_family_in_range:
  assumes "entries_in_range fd"
  shows "(\<forall>scores overall. score_family family_name fd = Inr (scores, overall) \<longrightarrow>
            length scores = 8 \<and> list_all in_range (map snd scores) \<and> in_range overall)
         \<and> (complete_profile fd \<longrightarrow>
              (\<exists>scores overall. score_family family_name fd = Inr (scores, overall)))"
proof (intro conjI allI impI)
  fix scores overall
  assume r: "score_family family_name fd = Inr (scores, overall)"
  from score_family_Inr [OF r] obtain s1 s2 s3 s4 s5 s6 s7 s8 where
    1: "score_vowels fd = Inr s1" and 2: "score_features fd = Inr s2" and
    3: "score_cases fd = Inr s3" and 4: "score_vocabulary fd = Inr s4" and
    5: "field ''geographic_plausibility'' (geographic_plausibility fd) = Inr s5" and
    6: "field ''timeline_fit'' (timeline_fit fd) = Inr s6" and
    7: "field ''scholarly_support'' (scholarly_support fd) = Inr s7" and
    8: "field ''religious_parallel'' (religious_parallel fd) = Inr s8" and
    sc: "scores = [(''Vowel system'', s1), (''Structural features'', s2),
                   (''Case system'', s3), (''Vocabulary'', s4), (''Geographic'', s5),
                   (''Timeline'', s6), (''Scholarly support'', s7),
                   (''Religious parallel'', s8)]" and
    m: "mean (map snd scores) = Inr overall"
    by blast
  have e: "values_in_range (case_similarity fd)" "values_in_range (vocabulary_matches fd)"
    "scalar_in_range (geographic_plausibility fd)" "scalar_in_range (timeline_fit fd)"
    "scalar_in_range (scholarly_support fd)" "scalar_in_range (religious_parallel fd)"
    using assms by (simp_all add: entries_in_range_def)
  have i: "in_range s1" "in_range s2" "in_range s3" "in_range s4"
    "in_range s5" "in_range s6" "in_range s7" "in_range s8"
    using score_vowels_in_range [OF 1] score_features_in_range [OF 2]
      score_cases_in_range [OF e(1) 3] score_vocabulary_in_range [OF e(2) 4]
      field_in_range [OF e(3) 5] field_in_range [OF e(4) 6]
      field_in_range [OF e(5) 7] field_in_range [OF e(6) 8]
    by blast+
  show "length scores = 8" by (simp add: sc)
  show all: "list_all in_range (map snd scores)" using i by (simp add: sc)
  show "in_range overall" using all m by (rule mean_in_range)
next
  assume "complete_profile fd"
  then show "\<exists>scores overall. score_family family_name fd = Inr (scores, overall)"
    by (rule score_family_total)
qed

theorem score_family_in_range_witness:
  "entries_in_range Hurro_Urartian \<and> complete_profile Hurro_Urartian \<and>
   (\<exists>scores overall. score_family ''Hurro-Urartian'' Hurro_Urartian = Inr (scores, overall)
      \<and> length scores = 8 \<and> list_all in_range (map snd scores) \<and> in_range overall)"
proof -
  have e: "entries_in_range Hurro_Urartian"
    by (simp add: entries_in_range_def values_in_range_def scalar_in_range_def in_range_def
        Hurro_Urartian_def)
  have c: "complete_profile Hurro_Urartian"
    by (simp add: complete_profile_def Hurro_Urartian_def)
  from score_family_in_range [OF e, of "''Hurro-Urartian''"] e c show ?thesis by blast
qed

section \<open>Vowel score and the regional variant\<close>

lemma vowel_score_of_identical: "vowel_score_of LINEAR_A_vowels = 100"
  by (simp add: vowel_score_of_def vowel_distance_def vowel_term_def get0_def LINEAR_A_vowels_def)

lemma log2_41_521: "- 4 \<le> log 2 (41 / 521)"
proof -
  have "log 2 (1 / 16) \<le> log 2 (41 / 521)" by (subst log_le_cancel_iff) simp_all
  moreover have "log 2 (1 / 16) = - 4"
  proof -
    have "log 2 (2 ^ 4) = real 4 * log 2 2" by (rule log_nat_power) simp
    then have "log 2 16 = 4" by simp
    then show ?thesis by (simp add: log_divide)
  qed
  ultimately show ?thesis by simp
qed

lemma vowel_distance_variant:
  "vowel_distance LINEAR_A_vowels variant_vowels = 0.958 + 0.041 * log 2 (41 / 521)"
  by (simp add: vowel_distance_def vowel_term_def get0_def LINEAR_A_vowels_def variant_vowels_def)

lemma vowel_score_of_variant: "vowel_score_of variant_vowels = 0"
proof -
  have "0.794 \<le> (0.958 :: real) + 0.041 * log 2 (41 / 521)"
    using log2_41_521 by simp
  then have "100 - (0.958 + 0.041 * log 2 (41 / 521)) * 500 \<le> (0 :: real)" by simp
  then show ?thesis
    unfolding vowel_score_of_def vowel_distance_variant Let_def by (simp add: max_def)
qed

text \<open>
  Claim C2, as amended.  For every candidate whose alternate (regional variant)
  distribution is present and not empty, the vowel score is the score of the alternate
  distribution, whatever the main distribution is (the main one is not read).
\<close>

theorem score_vowels_uses_variant:
  assumes "hattusha_vowels fd = Some h" and "h \<noteq> []"
  shows "score_vowels fd = Inr (vowel_score_of h)
         \<and> (\<forall>v. score_vowels (fd\<lparr>vowels := v\<rparr>) = score_vowels fd)"
  using assms by (simp add: score_vowels_def best_vowels_def and_then_def)

theorem score_vowels_uses_variant_witness:
  "hattusha_vowels variant_profile = Some variant_vowels \<and> variant_vowels \<noteq> [] \<and>
   score_vowels variant_profile = Inr (vowel_score_of variant_vowels) \<and>
   score_vowels (variant_profile\<lparr>vowels := None\<rparr>) = score_vowels variant_profile"
proof -
  have h: "hattusha_vowels variant_profile = Some variant_vowels"
    by (simp add: variant_profile_def)
  have n: "variant_vowels \<noteq> []" by (simp add: variant_vowels_def)
  from score_vowels_uses_variant [OF h n] h n show ?thesis by blast
qed

text \<open>
  The claim as it was stated (the score is the larger of the two distributions' scores)
  fails for a candidate whose main distribution is the target's own, score 100, and
  whose variant scores 0: the scorer returns 0.
\<close>

theorem score_vowels_best_case_counterexample:
  "vowels variant_profile = Some LINEAR_A_vowels \<and>
   hattusha_vowels variant_profile = Some variant_vowels \<and>
   score_vowels variant_profile = Inr 0 \<and>
   max (vowel_score_of LINEAR_A_vowels) (vowel_score_of variant_vowels) = 100"
proof -
  have "best_vowels variant_profile = Inr variant_vowels"
    by (simp add: best_vowels_def variant_profile_def variant_vowels_def)
  then have "score_vowels variant_profile = Inr (vowel_score_of variant_vowels)"
    by (simp add: score_vowels_def and_then_def)
  then show ?thesis
    by (simp add: vowel_score_of_variant vowel_score_of_identical variant_profile_def)
qed

section \<open>Feature overlap\<close>

lemma distinct_feature_names: "distinct feature_names"
  by (simp add: feature_names_def LINEAR_A_features_def)

lemma length_feature_names: "length feature_names = 14"
  by (simp add: feature_names_def LINEAR_A_features_def)

lemma feature_matches_card:
  assumes "distinct (map fst target)"
  shows "feature_matches target feats =
           card {f \<in> set (map fst target). map_of feats f = map_of target f}"
proof -
  let ?Q = "\<lambda>f. map_of feats f = map_of target f"
  have "\<forall>x \<in> set target.
          (case x of (feat, la_val) \<Rightarrow> map_of feats feat = Some la_val) = ?Q (fst x)"
  proof
    fix x assume x: "x \<in> set target"
    obtain feat la_val where p: "x = (feat, la_val)" by (cases x)
    with x assms have "map_of target feat = Some la_val" by (simp add: map_of_is_SomeI)
    then show "(case x of (feat, la_val) \<Rightarrow> map_of feats feat = Some la_val) = ?Q (fst x)"
      by (simp add: p)
  qed
  then have "filter (\<lambda>(feat, la_val). map_of feats feat = Some la_val) target
          = filter (\<lambda>x. ?Q (fst x)) target"
    by (simp cong: filter_cong)
  then have "feature_matches target feats = length (filter (\<lambda>x. ?Q (fst x)) target)"
    by (simp add: feature_matches_def)
  also have "\<dots> = length (filter ?Q (map fst target))"
    by (simp add: filter_map comp_def)
  also have "\<dots> = card (set (filter ?Q (map fst target)))"
  proof -
    have "distinct (filter ?Q (map fst target))" using assms by (rule distinct_filter)
    then show ?thesis by (rule distinct_card [symmetric])
  qed
  also have "set (filter ?Q (map fst target)) = {f \<in> set (map fst target). ?Q f}"
    by (rule set_filter)
  finally show ?thesis .
qed

lemma card_filter_full:
  assumes "finite S"
  shows "card {f \<in> S. Q f} = card S \<longleftrightarrow> (\<forall>f \<in> S. Q f)"
proof
  assume c: "card {f \<in> S. Q f} = card S"
  have "{f \<in> S. Q f} \<subseteq> S" by blast
  with assms c have "{f \<in> S. Q f} = S" by (simp add: card_subset_eq)
  then show "\<forall>f \<in> S. Q f" by blast
next
  assume "\<forall>f \<in> S. Q f"
  then have "{f \<in> S. Q f} = S" by blast
  then show "card {f \<in> S. Q f} = card S" by simp
qed

text \<open>
  Claim C3.  For every candidate profile with a feature map the feature-overlap score
  is \<open>100 * k / n\<close>, where \<open>n\<close> is the number of target features (fourteen) and \<open>k\<close> the
  number of target features whose value in the candidate's map equals the target's; a
  feature that the candidate's map lacks is looked up as \<open>None\<close> and is no match.  The
  score is 100 exactly when every target feature matches.
\<close>

theorem score_features_ratio:
  assumes "features fd = Some feats"
  defines "k \<equiv> card {f \<in> set feature_names. map_of feats f = map_of LINEAR_A_features f}"
  shows "score_features fd = Inr (100 * real k / real (length feature_names))
         \<and> (score_features fd = Inr 100
              \<longleftrightarrow> (\<forall>f \<in> set feature_names. map_of feats f = map_of LINEAR_A_features f))"
proof -
  have d: "distinct (map fst LINEAR_A_features)"
    using distinct_feature_names by (simp add: feature_names_def)
  have m: "feature_matches LINEAR_A_features feats = k"
    unfolding k_def feature_names_def by (rule feature_matches_card [OF d])
  have n: "length LINEAR_A_features = length feature_names" by (simp add: feature_names_def)
  have v: "score_features fd = Inr (real k / real (length feature_names) * 100)"
    using assms(1) by (simp add: score_features_def field_def and_then_def m n)
  have kn: "k = 14 \<longleftrightarrow> (\<forall>f \<in> set feature_names. map_of feats f = map_of LINEAR_A_features f)"
  proof -
    have "card (set feature_names) = 14"
      using distinct_feature_names length_feature_names by (simp add: distinct_card)
    moreover have "k = card (set feature_names)
       \<longleftrightarrow> (\<forall>f \<in> set feature_names. map_of feats f = map_of LINEAR_A_features f)"
      unfolding k_def by (rule card_filter_full) simp
    ultimately show ?thesis by simp
  qed
  have "real k / 14 * 100 = 100 \<longleftrightarrow> k = 14" by auto
  with v kn show ?thesis by (simp add: length_feature_names)
qed


theorem score_features_ratio_witness:
  "score_features (Hurro_Urartian\<lparr>features := Some LINEAR_A_features\<rparr>) = Inr 100"
proof -
  let ?fd = "Hurro_Urartian\<lparr>features := Some LINEAR_A_features\<rparr>"
  have "features ?fd = Some LINEAR_A_features" by simp
  from score_features_ratio [OF this] have
    "score_features ?fd = Inr 100
       \<longleftrightarrow> (\<forall>f \<in> set feature_names. map_of LINEAR_A_features f = map_of LINEAR_A_features f)"
    by (rule conjunct2)
  then show ?thesis by simp
qed
section \<open>Missing sections of a profile\<close>

lemma and_then_eq_Inl:
  "and_then r f = Inl e \<longleftrightarrow> r = Inl e \<or> (\<exists>x. r = Inr x \<and> f x = Inl e)"
  by (cases r) (simp_all add: and_then_def)

lemma score_vowels_Inl:
  "score_vowels fd = Inl e \<Longrightarrow> e = KeyError ''vowels'' \<and> vowels_missing fd"
  by (cases "hattusha_vowels fd"; cases "vowels fd")
     (auto simp: score_vowels_def best_vowels_def field_def and_then_def vowels_missing_def
           split: if_splits)

lemma score_features_Inl:
  "score_features fd = Inl e \<Longrightarrow> e = KeyError ''features'' \<and> features fd = None"
  by (cases "features fd") (simp_all add: score_features_def field_def and_then_def Let_def)

lemma mean_Inl: "mean xs = Inl e \<Longrightarrow> e = ZeroDivisionError \<and> xs = []"
  by (simp add: mean_def split: if_splits)

lemma score_cases_Inl:
  "score_cases fd = Inl e \<Longrightarrow>
     (e = KeyError ''case_similarity'' \<and> case_similarity fd = None) \<or>
     (e = ZeroDivisionError \<and> case_similarity fd = Some [])"
  by (cases "case_similarity fd")
     (auto simp: score_cases_def field_def and_then_def dest: mean_Inl)

lemma score_vocabulary_Inl:
  "score_vocabulary fd = Inl e \<Longrightarrow>
     (e = KeyError ''vocabulary_matches'' \<and> vocabulary_matches fd = None) \<or>
     (e = ZeroDivisionError \<and> vocabulary_matches fd = Some [])"
  by (cases "vocabulary_matches fd")
     (auto simp: score_vocabulary_def field_def and_then_def dest: mean_Inl)

lemma score_vocabulary_original_Inl:
  "score_vocabulary_original fd = Inl e \<Longrightarrow>
     e = ZeroDivisionError \<and> vocabulary_matches fd = Some []"
  by (cases "vocabulary_matches fd")
     (auto simp: score_vocabulary_original_def dest: mean_Inl)

lemma field_Inl: "field k x = Inl e \<Longrightarrow> e = KeyError k \<and> x = None"
  by (cases x) (simp_all add: field_def)

lemma mean8: "mean [a, b, c, d, e, f, g, h] = Inr ((a + b + c + d + e + f + g + h) / 8)"
  by (simp add: mean_def)

lemma score_family_Inl:
  assumes "score_family family_name fd = Inl e"
  shows "score_vowels fd = Inl e \<or> score_features fd = Inl e \<or> score_cases fd = Inl e \<or>
         score_vocabulary fd = Inl e \<or>
         field ''geographic_plausibility'' (geographic_plausibility fd) = Inl e \<or>
         field ''timeline_fit'' (timeline_fit fd) = Inl e \<or>
         field ''scholarly_support'' (scholarly_support fd) = Inl e \<or>
         field ''religious_parallel'' (religious_parallel fd) = Inl e"
  using assms
  by (simp only: score_family_def and_then_eq_Inl Let_def list.map snd_conv mean8) blast

lemma score_family_validation_Inl:
  assumes "score_family_validation expanded family_name fd use_expanded = Inl e"
  shows "score_vowels fd = Inl e \<or> score_features fd = Inl e \<or> score_cases fd = Inl e \<or>
         score_vocabulary_original fd = Inl e \<or>
         field ''geographic_plausibility'' (geographic_plausibility fd) = Inl e \<or>
         field ''timeline_fit'' (timeline_fit fd) = Inl e \<or>
         field ''scholarly_support'' (scholarly_support fd) = Inl e \<or>
         field ''religious_parallel'' (religious_parallel fd) = Inl e"
  using assms
  by (simp only: score_family_validation_def and_then_eq_Inl Let_def list.map snd_conv mean8)
     (auto split: if_splits)


lemma score_family_stages:
  assumes "score_family family_name fd = Inr r"
  shows "(\<exists>s. score_vowels fd = Inr s) \<and> (\<exists>s. score_features fd = Inr s) \<and>
         (\<exists>s. score_cases fd = Inr s) \<and> (\<exists>s. score_vocabulary fd = Inr s) \<and>
         (\<exists>s. field ''geographic_plausibility'' (geographic_plausibility fd) = Inr s) \<and>
         (\<exists>s. field ''timeline_fit'' (timeline_fit fd) = Inr s) \<and>
         (\<exists>s. field ''scholarly_support'' (scholarly_support fd) = Inr s) \<and>
         (\<exists>s. field ''religious_parallel'' (religious_parallel fd) = Inr s)"
  using assms by (simp only: score_family_def and_then_eq_Inr Let_def) blast

lemma score_family_validation_stages:
  assumes "score_family_validation expanded family_name fd use_expanded = Inr r"
  shows "(\<exists>s. score_vowels fd = Inr s) \<and> (\<exists>s. score_features fd = Inr s) \<and>
         (\<exists>s. score_cases fd = Inr s) \<and>
         (\<exists>s. field ''geographic_plausibility'' (geographic_plausibility fd) = Inr s) \<and>
         (\<exists>s. field ''timeline_fit'' (timeline_fit fd) = Inr s) \<and>
         (\<exists>s. field ''scholarly_support'' (scholarly_support fd) = Inr s) \<and>
         (\<exists>s. field ''religious_parallel'' (religious_parallel fd) = Inr s)"
  using assms by (simp only: score_family_validation_def and_then_eq_Inr Let_def) blast

lemma score_vowels_missing:
  "vowels_missing fd \<Longrightarrow> score_vowels fd = Inl (KeyError ''vowels'')"
  by (auto simp: vowels_missing_def score_vowels_def best_vowels_def field_def and_then_def)

lemma score_features_missing:
  "features fd = None \<Longrightarrow> score_features fd = Inl (KeyError ''features'')"
  by (simp add: score_features_def field_def and_then_def)

lemma score_cases_missing:
  "case_similarity fd = None \<Longrightarrow> score_cases fd = Inl (KeyError ''case_similarity'')"
  by (simp add: score_cases_def field_def and_then_def)

lemma score_vocabulary_missing:
  "vocabulary_matches fd = None \<Longrightarrow> score_vocabulary fd = Inl (KeyError ''vocabulary_matches'')"
  by (simp add: score_vocabulary_def field_def and_then_def)

lemma field_missing: "field k None = Inl (KeyError k)"
  by (simp add: field_def)

lemma score_family_raised:
  assumes "score_family family_name fd = Inl e"
  shows "raised_for fd e"
  using score_family_Inl [OF assms]
  by (auto simp: raised_for_def required_sections_def section_missing_def
      dest!: score_vowels_Inl score_features_Inl score_cases_Inl score_vocabulary_Inl field_Inl)

lemma score_family_validation_raised:
  assumes "score_family_validation expanded family_name fd use_expanded = Inl e"
  shows "raised_for fd e"
  using score_family_validation_Inl [OF assms]
  by (auto simp: raised_for_def required_sections_def section_missing_def
      dest!: score_vowels_Inl score_features_Inl score_cases_Inl score_vocabulary_original_Inl
             field_Inl)

lemma score_family_missing:
  assumes "section_missing fd k"
  shows "\<exists>e. score_family family_name fd = Inl e \<and> raised_for fd e"
proof (cases "score_family family_name fd")
  case (Inl e)
  with score_family_raised [OF Inl] show ?thesis by blast
next
  case (Inr r)
  from score_family_stages [OF Inr] assms have False
    by (auto simp: section_missing_def score_vowels_missing score_features_missing
        score_cases_missing score_vocabulary_missing field_missing)
  then show ?thesis ..
qed

lemma score_family_validation_missing:
  assumes "section_missing fd k" and "k \<noteq> ''vocabulary_matches''"
  shows "\<exists>e. score_family_validation expanded family_name fd use_expanded = Inl e
           \<and> raised_for fd e"
proof (cases "score_family_validation expanded family_name fd use_expanded")
  case (Inl e)
  with score_family_validation_raised [OF Inl] show ?thesis by blast
next
  case (Inr r)
  from score_family_validation_stages [OF Inr] assms have False
    by (auto simp: section_missing_def score_vowels_missing score_features_missing
        score_cases_missing field_missing)
  then show ?thesis ..
qed

text \<open>
  Claim C4, as amended.  A profile that lacks a top-level section which the pipeline
  reads makes the pipeline fail at once and return no score; the error is Python's
  \<open>KeyError\<close> naming a key that the profile lacks (or, when a case or vocabulary map
  that is read before it is present but empty, the \<open>ZeroDivisionError\<close> of its mean).
  The sections are the feature map, the case map, the vocabulary map, the four
  contextual scalars, and the main vowel distribution when the profile has no non-empty
  variant distribution.  Two readings are lenient by design: the control-validation
  scorer \<open>score_vocabulary_original\<close> tests for the key and scores a profile without a
  vocabulary map as 0, so that pipeline does not fail for it; and a profile without the
  main vowel distribution but with a non-empty variant is scored on the variant, with
  no error.
\<close>

theorem missing_section_raises:
  "(\<forall>k \<in> set required_sections. section_missing fd k \<longrightarrow>
      (\<exists>e. score_family family_name fd = Inl e \<and> raised_for fd e))
   \<and> (\<forall>k \<in> set required_sections. k \<noteq> ''vocabulary_matches'' \<longrightarrow> section_missing fd k \<longrightarrow>
        (\<exists>e. score_family_validation expanded family_name fd use_expanded = Inl e
           \<and> raised_for fd e))
   \<and> (vowels_missing fd \<longrightarrow> score_vowels fd = Inl (KeyError ''vowels''))
   \<and> (features fd = None \<longrightarrow> score_features fd = Inl (KeyError ''features''))
   \<and> (case_similarity fd = None \<longrightarrow> score_cases fd = Inl (KeyError ''case_similarity''))
   \<and> (vocabulary_matches fd = None \<longrightarrow>
         score_vocabulary fd = Inl (KeyError ''vocabulary_matches'')
         \<and> score_vocabulary_original fd = Inr 0)
   \<and> (\<forall>h. vowels fd = None \<and> hattusha_vowels fd = Some h \<and> h \<noteq> [] \<longrightarrow>
         score_vowels fd = Inr (vowel_score_of h))"
proof (intro conjI ballI allI impI)
  fix k assume "section_missing fd k"
  then show "\<exists>e. score_family family_name fd = Inl e \<and> raised_for fd e"
    by (rule score_family_missing)
next
  fix k assume "k \<noteq> ''vocabulary_matches''" and "section_missing fd k"
  then show "\<exists>e. score_family_validation expanded family_name fd use_expanded = Inl e
           \<and> raised_for fd e"
    by (intro score_family_validation_missing)
next
  assume "vowels_missing fd"
  then show "score_vowels fd = Inl (KeyError ''vowels'')" by (rule score_vowels_missing)
next
  assume "features fd = None"
  then show "score_features fd = Inl (KeyError ''features'')" by (rule score_features_missing)
next
  assume "case_similarity fd = None"
  then show "score_cases fd = Inl (KeyError ''case_similarity'')" by (rule score_cases_missing)
next
  assume "vocabulary_matches fd = None"
  then show "score_vocabulary fd = Inl (KeyError ''vocabulary_matches'')"
    by (rule score_vocabulary_missing)
next
  assume "vocabulary_matches fd = None"
  then show "score_vocabulary_original fd = Inr 0"
    by (simp add: score_vocabulary_original_def)
next
  fix h assume "vowels fd = None \<and> hattusha_vowels fd = Some h \<and> h \<noteq> []"
  then show "score_vowels fd = Inr (vowel_score_of h)"
    by (simp add: score_vowels_def best_vowels_def and_then_def)
qed

theorem missing_section_raises_witness:
  "''timeline_fit'' \<in> set required_sections \<and>
   section_missing (Hurro_Urartian\<lparr>timeline_fit := None\<rparr>) ''timeline_fit'' \<and>
   score_family ''Hurro-Urartian'' (Hurro_Urartian\<lparr>timeline_fit := None\<rparr>)
     = Inl (KeyError ''timeline_fit'') \<and>
   score_family_validation [] ''Hurro-Urartian'' (Hurro_Urartian\<lparr>timeline_fit := None\<rparr>) False
     = Inl (KeyError ''timeline_fit'') \<and>
   features (Hurro_Urartian\<lparr>features := None\<rparr>) = None \<and>
   score_features (Hurro_Urartian\<lparr>features := None\<rparr>) = Inl (KeyError ''features'') \<and>
   vocabulary_matches no_vocabulary_profile = None \<and>
   score_vocabulary no_vocabulary_profile = Inl (KeyError ''vocabulary_matches'')"
proof -
  let ?fd = "Hurro_Urartian\<lparr>timeline_fit := None\<rparr>"
  have k: "''timeline_fit'' \<in> set required_sections" by (simp add: required_sections_def)
  have n: "''timeline_fit'' \<noteq> ''vocabulary_matches''" by simp
  have m: "section_missing ?fd ''timeline_fit''" by (simp add: section_missing_def)
  have only: "\<And>e. raised_for ?fd e \<Longrightarrow> e = KeyError ''timeline_fit''"
    by (auto simp: raised_for_def required_sections_def section_missing_def vowels_missing_def
        Hurro_Urartian_def)
  note t = missing_section_raises [of ?fd "''Hurro-Urartian''" "[]" False]
  from t [THEN conjunct1, rule_format, OF k m] obtain e where
    "score_family ''Hurro-Urartian'' ?fd = Inl e" "raised_for ?fd e"
    by (elim exE conjE)
  with only have a: "score_family ''Hurro-Urartian'' ?fd = Inl (KeyError ''timeline_fit'')"
    by simp
  from t [THEN conjunct2, THEN conjunct1, rule_format, OF k n m] obtain e' where
    "score_family_validation [] ''Hurro-Urartian'' ?fd False = Inl e'" "raised_for ?fd e'"
    by (elim exE conjE)
  with only have b: "score_family_validation [] ''Hurro-Urartian'' ?fd False
                       = Inl (KeyError ''timeline_fit'')" by simp
  have f: "features (Hurro_Urartian\<lparr>features := None\<rparr>) = None" by simp
  have v: "vocabulary_matches no_vocabulary_profile = None"
    by (simp add: no_vocabulary_profile_def)
  note u = missing_section_raises [of "Hurro_Urartian\<lparr>features := None\<rparr>" "''Hurro-Urartian''" "[]" False]
  have c: "score_features (Hurro_Urartian\<lparr>features := None\<rparr>) = Inl (KeyError ''features'')"
    by (rule u [THEN conjunct2, THEN conjunct2, THEN conjunct2, THEN conjunct1, rule_format, OF f])
  note w = missing_section_raises [of no_vocabulary_profile "''Hurro-Urartian''" "[]" False]
  have d: "score_vocabulary no_vocabulary_profile = Inl (KeyError ''vocabulary_matches'')"
    by (rule w [THEN conjunct2, THEN conjunct2, THEN conjunct2, THEN conjunct2, THEN conjunct2,
                THEN conjunct1, rule_format, OF v, THEN conjunct1])
  show ?thesis by (intro conjI k m a b f c v d)
qed

text \<open>
  The claim as it was stated (every missing section fails fast, none is scored silently)
  fails twice.  In the control-validation pipeline a profile without a vocabulary map
  gets 0 on the vocabulary dimension and the pipeline returns all eight scores and their
  mean.  And a profile without the main vowel distribution, but with the variant, is
  scored by both pipelines without any error.
\<close>

theorem missing_section_scored_counterexample:
  "vocabulary_matches no_vocabulary_profile = None \<and>
   score_vocabulary_original no_vocabulary_profile = Inr 0 \<and>
   score_family_validation [] ''Hurro-Urartian'' no_vocabulary_profile False
     = Inr ([(''Vowel system'', vowel_score_of [(''a'', 38), (''i'', 25), (''u'', 22), (''e'', 10), (''o'', 5)]),
             (''Structural features'', 13 / 14 * 100),
             (''Case system'', 460 / 6),
             (''Vocabulary'', 0),
             (''Geographic'', 80), (''Timeline'', 75), (''Scholarly support'', 70),
             (''Religious parallel'', 84)],
            (vowel_score_of [(''a'', 38), (''i'', 25), (''u'', 22), (''e'', 10), (''o'', 5)]
              + 13 / 14 * 100 + 460 / 6 + 0 + 80 + 75 + 70 + 84) / 8) \<and>
   vowels no_vowels_profile = None \<and>
   score_family ''Hurro-Urartian'' no_vowels_profile
     = Inr ([(''Vowel system'', vowel_score_of [(''a'', 38), (''i'', 25), (''u'', 22), (''e'', 10), (''o'', 5)]),
             (''Structural features'', 13 / 14 * 100),
             (''Case system'', 460 / 6),
             (''Vocabulary'', 505 / 9),
             (''Geographic'', 80), (''Timeline'', 75), (''Scholarly support'', 70),
             (''Religious parallel'', 84)],
            (vowel_score_of [(''a'', 38), (''i'', 25), (''u'', 22), (''e'', 10), (''o'', 5)]
              + 13 / 14 * 100 + 460 / 6 + 505 / 9 + 80 + 75 + 70 + 84) / 8)"
  by (simp add: no_vocabulary_profile_def no_vowels_profile_def Hurro_Urartian_def
      score_vocabulary_original_def score_vocabulary_def
      score_family_validation_def score_family_def score_vowels_def best_vowels_def
      score_features_def score_cases_def field_def and_then_def mean_def feature_matches_def
      LINEAR_A_features_def Let_def)

section \<open>Bootstrap over dimensions\<close>

lemma traverse_map:
  assumes "\<And>x. x \<in> set xs \<Longrightarrow> f x = Inr (h x)"
  shows "traverse f xs = Inr (map h xs)"
  using assms by (induction xs) (simp_all add: and_then_def)

lemma list_index_total: "x \<in> set xs \<Longrightarrow> \<exists>i. list_index xs x = Inr i"
  by (induction xs) (auto simp: and_then_def)

lemma draw_indices_eq:
  assumes "0 < d"
  shows "draw_indices k (int d - 1) g =
           Inr (map (\<lambda>j. int (ints g j mod d)) [0 ..< k], g\<lparr>ints := \<lambda>i. ints g (k + i)\<rparr>)"
proof (induction k arbitrary: g)
  case 0
  then show ?case by simp
next
  case (Suc k)
  let ?g1 = "g\<lparr>ints := \<lambda>i. ints g (Suc i)\<rparr>"
  have r: "randint 0 (int d - 1) g = Inr (int (ints g 0 mod d), ?g1)"
    using assms by (simp add: randint_def randbelow_def)
  have m: "map (\<lambda>j. int (ints g j mod d)) [0 ..< Suc k]
             = int (ints g 0 mod d) # map (\<lambda>j. int (ints ?g1 j mod d)) [0 ..< k]"
  proof -
    have "[0 ..< Suc k] = 0 # map Suc [0 ..< k]"
      by (simp add: upt_conv_Cons map_Suc_upt del: upt_Suc)
    then show ?thesis by (simp add: comp_def del: upt_Suc)
  qed
  show ?case
    unfolding draw_indices.simps r m by (simp add: and_then_def Suc.IH)
qed

lemma getitem_valid:
  "0 \<le> i \<Longrightarrow> i < int (length xs) \<Longrightarrow> getitem xs i = Inr (xs ! nat i)"
  by (simp add: getitem_def)

lemma resample_ok:
  assumes "\<forall>i \<in> set idx. 0 \<le> i \<and> i < int (length dims)" and "idx \<noteq> []"
  shows "traverse (getitem dims) idx = Inr (map (\<lambda>i. dims ! nat i) idx)"
    and "mean (map (\<lambda>i. dims ! nat i) idx) = Inr (resampled_mean dims idx)"
proof -
  show "traverse (getitem dims) idx = Inr (map (\<lambda>i. dims ! nat i) idx)"
    by (rule traverse_map) (use assms(1) in \<open>simp add: getitem_valid\<close>)
  show "mean (map (\<lambda>i. dims ! nat i) idx) = Inr (resampled_mean dims idx)"
    using assms(2) by (simp add: mean_def resampled_mean_def)
qed


lemma family_dim_scores_ok:
  assumes "\<forall>(fname, fdata) \<in> set families. complete_profile fdata"
  shows "\<exists>fds. family_dim_scores families = Inr fds \<and> map fst fds = map fst families
           \<and> (\<forall>(fname, dims) \<in> set fds. length dims = 8)"
proof -
  let ?h = "\<lambda>(fname, fdata). (fname, map snd (fst (projr (score_family fname fdata))))"
  let ?f = "\<lambda>(fname, fdata).
       and_then (score_family fname fdata) (\<lambda>(scores, _). Inr (fname, map snd scores))"
  have each: "\<And>x. x \<in> set families \<Longrightarrow> ?f x = Inr (?h x) \<and> length (snd (?h x)) = 8"
  proof -
    fix x assume x: "x \<in> set families"
    obtain fname fdata where p: "x = (fname, fdata)" by (cases x)
    with x assms have "complete_profile fdata" by auto
    from score_family_total [OF this, of fname] obtain scores overall where
      r: "score_family fname fdata = Inr (scores, overall)" by blast
    from score_family_Inr [OF r] have "length scores = 8" by auto
    with r p show "?f x = Inr (?h x) \<and> length (snd (?h x)) = 8"
      by (simp add: and_then_def)
  qed
  have "traverse ?f families = Inr (map ?h families)"
    by (rule traverse_map) (use each in blast)
  then have a: "family_dim_scores families = Inr (map ?h families)"
    by (simp add: family_dim_scores_def)
  have b: "map fst (map ?h families) = map fst families"
    by (induction families) (auto split: prod.splits)
  have c: "\<forall>(fname, dims) \<in> set (map ?h families). length dims = 8"
    using each by fastforce
  from a b c show ?thesis by blast
qed

lemma map_fst_dict_append: "map fst (dict_append d k x) = map fst d"
  by (induction d) (auto simp: dict_append_def)

lemma map_of_dict_append:
  "map_of (dict_append d k x) k' =
     (if k' = k then map_option (\<lambda>xs. xs @ [x]) (map_of d k) else map_of d k')"
  by (induction d) (auto simp: dict_append_def)

lemma fold_dict_append:
  assumes "distinct ns"
  shows "map fst (fold (\<lambda>f b. dict_append b f (v f)) ns bs) = map fst bs \<and>
         (\<forall>k. map_of (fold (\<lambda>f b. dict_append b f (v f)) ns bs) k =
            (if k \<in> set ns then map_option (\<lambda>xs. xs @ [v k]) (map_of bs k) else map_of bs k))"
  using assms
proof (induction ns arbitrary: bs)
  case Nil
  then show ?case by simp
next
  case (Cons n ns)
  from Cons.prems have d: "distinct ns" and n: "n \<notin> set ns" by simp_all
  from Cons.IH [OF d, of "dict_append bs n (v n)"] n show ?case
    by (auto simp: map_fst_dict_append map_of_dict_append)
qed

lemma fold_resample:
  assumes "\<forall>f \<in> set ns. \<exists>dims. map_of fds f = Some dims \<and> length dims = d"
    and "\<forall>i \<in> set idx. 0 \<le> i \<and> i < int d" and "idx \<noteq> []"
  shows "fold_result (resample_family fds idx) ns (acc, bs) =
           Inr (acc @ map (\<lambda>f. (f, resampled_mean (the (map_of fds f)) idx)) ns,
                fold (\<lambda>f b. dict_append b f (resampled_mean (the (map_of fds f)) idx)) ns bs)"
  using assms(1)
proof (induction ns arbitrary: acc bs)
  case Nil
  then show ?case by simp
next
  case (Cons n ns)
  from Cons.prems obtain dims where dims: "map_of fds n = Some dims" "length dims = d" by auto
  have v: "\<forall>i \<in> set idx. 0 \<le> i \<and> i < int (length dims)" using assms(2) dims by simp
  have step: "resample_family fds idx n (acc, bs) =
                Inr (acc @ [(n, resampled_mean dims idx)],
                     dict_append bs n (resampled_mean dims idx))"
    by (simp add: resample_family_def subscript_def and_then_def dims(1)
        resample_ok [OF v assms(3)])
  have rest: "\<forall>f \<in> set ns. \<exists>dims. map_of fds f = Some dims \<and> length dims = d"
    using Cons.prems by simp
  show ?case
    by (simp add: step and_then_def Cons.IH [OF rest] dims(1))
qed

lemma bootstrap_iteration_ok:
  assumes "distinct names" and "''Hurro-Urartian'' \<in> set names"
    and "\<forall>f \<in> set names. \<exists>dims. map_of fds f = Some dims \<and> length dims = d"
    and "0 < d"
  defines "idx \<equiv> \<lambda>g. map (\<lambda>j. int (ints g j mod d)) [0 ..< d]"
  shows "\<exists>st'. bootstrap_iteration names fds d st g = Inr (st', g\<lparr>ints := \<lambda>i. ints g (d + i)\<rparr>) \<and>
           map fst (bootstrap_scores st') = map fst (bootstrap_scores st) \<and>
           (\<forall>k. map_of (bootstrap_scores st') k =
              (if k \<in> set names
               then map_option (\<lambda>xs. xs @ [resampled_mean (the (map_of fds k)) (idx g)])
                      (map_of (bootstrap_scores st) k)
               else map_of (bootstrap_scores st) k))"
proof -
  define v where "v = (\<lambda>f. resampled_mean (the (map_of fds f)) (idx g))"
  define iter where "iter = map (\<lambda>f. (f, v f)) names"
  define bs where "bs = fold (\<lambda>f b. dict_append b f (v f)) names (bootstrap_scores st)"
  define g1 where "g1 = g\<lparr>ints := \<lambda>i. ints g (d + i)\<rparr>"
  have valid: "\<forall>i \<in> set (idx g). 0 \<le> i \<and> i < int d"
    using assms(4) by (auto simp: idx_def)
  have ne: "idx g \<noteq> []" using assms(4) by (simp add: idx_def)
  have draw: "draw_indices d (int d - 1) g = Inr (idx g, g1)"
    unfolding idx_def g1_def by (rule draw_indices_eq [OF assms(4)])
  have fr: "fold_result (resample_family fds (idx g)) names ([], bootstrap_scores st)
              = Inr (iter, bs)"
    unfolding iter_def bs_def v_def
    using fold_resample [OF assms(3) valid ne, of "[]" "bootstrap_scores st"] by simp
  have "set (map fst (sorted_desc iter)) = set names"
    by (simp add: sorted_desc_def iter_def image_image)
  with assms(2) have "''Hurro-Urartian'' \<in> set (map fst (sorted_desc iter))" by simp
  from list_index_total [OF this] obtain i where
    i: "list_index (map fst (sorted_desc iter)) ''Hurro-Urartian'' = Inr i" ..
  define st' where "st' = \<lparr>bootstrap_scores = bs,
               hurrian_rank = hurrian_rank st @ [i + 1],
               hurrian_wins = (if i + 1 = 1 then hurrian_wins st + 1 else hurrian_wins st)\<rparr>"
  have run: "bootstrap_iteration names fds d st g = Inr (st', g1)"
    unfolding bootstrap_iteration_def
    by (simp only: draw fr i and_then_def sum.case prod.case Let_def st'_def)
  have sel: "bootstrap_scores st' = bs" by (simp add: st'_def)
  note fd = fold_dict_append [OF assms(1), of v "bootstrap_scores st", folded bs_def]
  have keys: "map fst bs = map fst (bootstrap_scores st)" by (rule fd [THEN conjunct1])
  have vals: "\<forall>k. map_of bs k =
              (if k \<in> set names
               then map_option (\<lambda>xs. xs @ [v k]) (map_of (bootstrap_scores st) k)
               else map_of (bootstrap_scores st) k)"
    by (rule fd [THEN conjunct2])
  show ?thesis
  proof (intro exI conjI)
    show "bootstrap_iteration names fds d st g = Inr (st', g\<lparr>ints := \<lambda>i. ints g (d + i)\<rparr>)"
      using run by (simp only: g1_def)
    show "map fst (bootstrap_scores st') = map fst (bootstrap_scores st)"
      by (simp only: sel keys)
    show "\<forall>k. map_of (bootstrap_scores st') k =
              (if k \<in> set names
               then map_option (\<lambda>xs. xs @ [resampled_mean (the (map_of fds k)) (idx g)])
                      (map_of (bootstrap_scores st) k)
               else map_of (bootstrap_scores st) k)"
      using vals unfolding sel v_def .
  qed
qed


lemma bootstrap_loop_ok:
  assumes "distinct names" and "''Hurro-Urartian'' \<in> set names"
    and "\<forall>f \<in> set names. \<exists>dims. map_of fds f = Some dims \<and> length dims = d"
    and "0 < d"
    and "\<forall>f \<in> set names. map_of (bootstrap_scores st) f =
           Some (map (\<lambda>u. resampled_mean (the (map_of fds f)) (trial_indices g0 d u)) [0 ..< t])"
    and "ints g = (\<lambda>i. ints g0 (t * d + i))"
  shows "\<exists>st' g'. bootstrap_loop k names fds d st g = Inr (st', g') \<and>
           map fst (bootstrap_scores st') = map fst (bootstrap_scores st) \<and>
           (\<forall>f \<in> set names. map_of (bootstrap_scores st') f =
              Some (map (\<lambda>u. resampled_mean (the (map_of fds f)) (trial_indices g0 d u))
                      [0 ..< t + k]))"
  using assms(5,6)
proof (induction k arbitrary: st g t)
  case 0
  then show ?case by simp
next
  case (Suc k)
  define rm where "rm = (\<lambda>f u. resampled_mean (the (map_of fds f)) (trial_indices g0 d u))"
  define g1 where "g1 = g\<lparr>ints := \<lambda>i. ints g (d + i)\<rparr>"
  have idx: "map (\<lambda>j. int (ints g j mod d)) [0 ..< d] = trial_indices g0 d t"
    by (simp add: trial_indices_def Suc.prems(2))
  from bootstrap_iteration_ok [OF assms(1-4), of st g] obtain st1 where
    st1: "bootstrap_iteration names fds d st g = Inr (st1, g1) \<and>
          map fst (bootstrap_scores st1) = map fst (bootstrap_scores st) \<and>
          (\<forall>k. map_of (bootstrap_scores st1) k =
              (if k \<in> set names
               then map_option (\<lambda>xs. xs @ [rm k t]) (map_of (bootstrap_scores st) k)
               else map_of (bootstrap_scores st) k))"
    unfolding idx g1_def rm_def ..
  from st1 have it: "bootstrap_iteration names fds d st g = Inr (st1, g1)" by (rule conjunct1)
  from st1 have keys: "map fst (bootstrap_scores st1) = map fst (bootstrap_scores st)"
    by (rule conjunct2 [THEN conjunct1])
  from st1 have vals: "\<forall>k. map_of (bootstrap_scores st1) k =
              (if k \<in> set names
               then map_option (\<lambda>xs. xs @ [rm k t]) (map_of (bootstrap_scores st) k)
               else map_of (bootstrap_scores st) k)"
    by (rule conjunct2 [THEN conjunct2])
  have old: "\<forall>f \<in> set names. map_of (bootstrap_scores st) f = Some (map (rm f) [0 ..< t])"
    using Suc.prems(1) unfolding rm_def .
  have inv1: "\<forall>f \<in> set names. map_of (bootstrap_scores st1) f = Some (map (rm f) [0 ..< Suc t])"
  proof
    fix f assume f: "f \<in> set names"
    with vals have "map_of (bootstrap_scores st1) f
                      = map_option (\<lambda>xs. xs @ [rm f t]) (map_of (bootstrap_scores st) f)" by simp
    also have "\<dots> = Some (map (rm f) [0 ..< t] @ [rm f t])" using old f by simp
    finally show "map_of (bootstrap_scores st1) f = Some (map (rm f) [0 ..< Suc t])" by simp
  qed
  have g1i: "ints g1 = (\<lambda>i. ints g0 (Suc t * d + i))"
  proof
    fix i
    have e: "t * d + (d + i) = Suc t * d + i" by simp
    have "ints g1 i = ints g0 (t * d + (d + i))"
      by (simp add: g1_def Suc.prems(2))
    then show "ints g1 i = ints g0 (Suc t * d + i)"
      by (simp only: e)
  qed
  from Suc.IH [OF inv1 [unfolded rm_def] g1i] obtain st' g' where
    r: "bootstrap_loop k names fds d st1 g1 = Inr (st', g') \<and>
        map fst (bootstrap_scores st') = map fst (bootstrap_scores st1) \<and>
        (\<forall>f \<in> set names. map_of (bootstrap_scores st') f =
              Some (map (\<lambda>u. resampled_mean (the (map_of fds f)) (trial_indices g0 d u))
                      [0 ..< Suc t + k]))"
    by (elim exE)
  from r have loop: "bootstrap_loop k names fds d st1 g1 = Inr (st', g')" by (rule conjunct1)
  from r have keys': "map fst (bootstrap_scores st') = map fst (bootstrap_scores st1)"
    by (rule conjunct2 [THEN conjunct1])
  from r have vals': "\<forall>f \<in> set names. map_of (bootstrap_scores st') f =
              Some (map (\<lambda>u. resampled_mean (the (map_of fds f)) (trial_indices g0 d u))
                      [0 ..< Suc t + k])"
    by (rule conjunct2 [THEN conjunct2])
  have e: "Suc t + k = t + Suc k" by simp
  show ?case
  proof (intro exI conjI)
    show "bootstrap_loop (Suc k) names fds d st g = Inr (st', g')"
      by (simp add: it loop and_then_def)
    show "map fst (bootstrap_scores st') = map fst (bootstrap_scores st)"
      using keys keys' by simp
    show "\<forall>f \<in> set names. map_of (bootstrap_scores st') f =
              Some (map (\<lambda>u. resampled_mean (the (map_of fds f)) (trial_indices g0 d u))
                      [0 ..< t + Suc k])"
      using vals' unfolding e .
  qed
qed



lemma percentile_index:
  assumes "0 < n" and "0 \<le> q" and "q < 1" and "length xs = n"
  shows "getitem xs (py_int (q * real n)) = Inr (xs ! nat \<lfloor>q * real n\<rfloor>)"
proof -
  have nn: "0 \<le> q * real n" using assms(2) by simp
  then have p: "py_int (q * real n) = \<lfloor>q * real n\<rfloor>" by (simp add: py_int_def)
  have lo: "0 \<le> \<lfloor>q * real n\<rfloor>" using nn by simp
  have "q * real n < 1 * real n" using assms(1,3) by (intro mult_strict_right_mono) simp_all
  then have "q * real n < real_of_int (int n)" by simp
  then have hi: "\<lfloor>q * real n\<rfloor> < int n" by (simp only: floor_less_iff)
  show ?thesis unfolding p using lo hi assms(4) by (simp add: getitem_def)
qed

lemma ci_row_of_ok:
  assumes "0 < n" and "map_of bs f = Some xs" and "length xs = n"
  shows "\<exists>row. ci_row_of bs n f = Inr row \<and> row_family row = f \<and>
           row_ci_low row = sort xs ! nat \<lfloor>0.025 * real n\<rfloor> \<and>
           row_ci_high row = sort xs ! nat \<lfloor>0.975 * real n\<rfloor>"
proof -
  define scores where "scores = sort xs"
  have len: "length scores = n" by (simp add: scores_def assms(3))
  have ne: "scores \<noteq> []" using len assms(1) by auto
  have sub: "subscript bs f = Inr xs" by (simp add: subscript_def assms(2))
  have m: "mean scores = Inr (sum_list scores / real (length scores))"
    using ne by (simp add: mean_def)
  have lo: "getitem scores (py_int (0.025 * real n)) = Inr (scores ! nat \<lfloor>0.025 * real n\<rfloor>)"
    by (rule percentile_index [OF assms(1) _ _ len]) simp_all
  have hi: "getitem scores (py_int (0.975 * real n)) = Inr (scores ! nat \<lfloor>0.975 * real n\<rfloor>)"
    by (rule percentile_index [OF assms(1) _ _ len]) simp_all
  obtain y ys where c: "scores = y # ys" using ne by (cases scores) auto
  have mn: "py_min scores = Inr (fold min ys y)" by (simp add: py_min_def c)
  have mx: "py_max scores = Inr (fold max ys y)" by (simp add: py_max_def c)
  define row where "row = \<lparr>row_family = f, row_mean = sum_list scores / real (length scores),
               row_ci_low = scores ! nat \<lfloor>0.025 * real n\<rfloor>,
               row_ci_high = scores ! nat \<lfloor>0.975 * real n\<rfloor>,
               row_lo = fold min ys y, row_hi = fold max ys y\<rparr>"
  have run: "ci_row_of bs n f = Inr row"
    unfolding ci_row_of_def row_def
    by (simp only: sub and_then_def sum.case Let_def scores_def [symmetric] m lo hi mn mx)
  show ?thesis
  proof (intro exI conjI)
    show "ci_row_of bs n f = Inr row" by (rule run)
    show "row_family row = f" by (simp add: row_def)
    show "row_ci_low row = sort xs ! nat \<lfloor>0.025 * real n\<rfloor>"
      by (simp add: row_def scores_def)
    show "row_ci_high row = sort xs ! nat \<lfloor>0.975 * real n\<rfloor>"
      by (simp add: row_def scores_def)
  qed
qed

lemma traverse_total:
  assumes "\<And>x. x \<in> set xs \<Longrightarrow> \<exists>y. f x = Inr y \<and> P x y"
  shows "\<exists>ys. traverse f xs = Inr ys \<and> list_all2 P xs ys"
  using assms
proof (induction xs)
  case Nil
  then show ?case by simp
next
  case (Cons x xs)
  from Cons.prems obtain y where y: "f x = Inr y" "P x y" by auto
  from Cons obtain ys where ys: "traverse f xs = Inr ys" "list_all2 P xs ys" by auto
  from y ys show ?case by (simp add: and_then_def)
qed

lemma ci_table_ok:
  assumes "0 < n" and "\<forall>f \<in> set names. \<exists>xs. map_of bs f = Some xs \<and> length xs = n"
  shows "\<exists>table. ci_table bs n names = Inr table \<and>
           mset (map row_family table) = mset names \<and>
           (\<forall>row \<in> set table. \<exists>xs. map_of bs (row_family row) = Some xs \<and>
              row_ci_low row = sort xs ! nat \<lfloor>0.025 * real n\<rfloor> \<and>
              row_ci_high row = sort xs ! nat \<lfloor>0.975 * real n\<rfloor>)"
proof -
  define key where "key = (\<lambda>x. (x, - (sum_list (the (map_of bs x)) / real n)))"
  define keyed where "keyed = map key names"
  define order where "order = map fst (sort_key snd keyed)"
  define P where "P = (\<lambda>f (row :: ci_row). row_family row = f \<and>
     (\<exists>xs. map_of bs f = Some xs \<and>
        row_ci_low row = sort xs ! nat \<lfloor>0.025 * real n\<rfloor> \<and>
        row_ci_high row = sort xs ! nat \<lfloor>0.975 * real n\<rfloor>))"
  have k: "traverse (\<lambda>x. and_then (subscript bs x) (\<lambda>xs.
                              and_then (mean xs) (\<lambda>m. Inr (x, - m)))) names = Inr keyed"
    unfolding keyed_def
  proof (rule traverse_map)
    fix x assume "x \<in> set names"
    with assms(2) obtain xs where xs: "map_of bs x = Some xs" "length xs = n" by blast
    then have "xs \<noteq> []" using assms(1) by auto
    with xs show "and_then (subscript bs x) (\<lambda>xs. and_then (mean xs) (\<lambda>m. Inr (x, - m))) = Inr (key x)"
      by (simp add: subscript_def and_then_def mean_def key_def)
  qed
  have "mset (sort_key snd keyed) = mset keyed" by simp
  then have "mset (map fst (sort_key snd keyed)) = mset (map fst keyed)"
    by (metis mset_map)
  moreover have "map fst keyed = names" by (simp add: keyed_def key_def comp_def)
  ultimately have mo: "mset order = mset names" by (simp add: order_def)
  then have so: "set order = set names" by (metis set_mset_mset)
  have "\<And>f. f \<in> set order \<Longrightarrow> \<exists>row. ci_row_of bs n f = Inr row \<and> P f row"
  proof -
    fix f assume "f \<in> set order"
    with so assms(2) obtain xs where xs: "map_of bs f = Some xs" "length xs = n" by blast
    from ci_row_of_ok [OF assms(1) xs] xs(1) show "\<exists>row. ci_row_of bs n f = Inr row \<and> P f row"
      unfolding P_def by blast
  qed
  from traverse_total [of order "ci_row_of bs n" P, OF this] obtain table where
    t: "traverse (ci_row_of bs n) order = Inr table" and a: "list_all2 P order table" by blast
  have run: "ci_table bs n names = Inr table"
    unfolding ci_table_def k by (simp add: and_then_def t [unfolded order_def])
  from a have "list_all2 (\<lambda>f row. row_family row = f) order table"
    by (rule list_all2_mono) (simp add: P_def)
  then have "map row_family table = order"
    by (induction order table rule: list_all2_induct) simp_all
  with mo have fam: "mset (map row_family table) = mset names" by simp
  have rows: "\<forall>row \<in> set table. \<exists>xs. map_of bs (row_family row) = Some xs \<and>
              row_ci_low row = sort xs ! nat \<lfloor>0.025 * real n\<rfloor> \<and>
              row_ci_high row = sort xs ! nat \<lfloor>0.975 * real n\<rfloor>"
  proof
    fix row assume "row \<in> set table"
    with a obtain f where "P f row" by (auto simp: list_all2_conv_all_nth in_set_conv_nth)
    then show "\<exists>xs. map_of bs (row_family row) = Some xs \<and>
              row_ci_low row = sort xs ! nat \<lfloor>0.025 * real n\<rfloor> \<and>
              row_ci_high row = sort xs ! nat \<lfloor>0.975 * real n\<rfloor>"
      unfolding P_def by blast
  qed
  from run fam rows show ?thesis by blast
qed



lemma trial_indices_valid:
  "0 < d \<Longrightarrow> length (trial_indices g d t) = d \<and> (\<forall>i \<in> set (trial_indices g d t). 0 \<le> i \<and> i < int d)"
  by (auto simp: trial_indices_def)

text \<open>
  Claim C5.  For a table of complete profiles with distinct names that contains
  Hurro-Urartian, and \<open>N > 0\<close> trials, the bootstrap returns, and:
  \<^item> the index draw of trial \<open>t\<close> is one list of eight indices of \<open>[0, 7]\<close>, each taken from
    the next output of the generator whatever was drawn before (with replacement);
  \<^item> for every family, the recorded score of trial \<open>t\<close> is the mean of the family's own
    eight dimension scores read at that same list of indices;
  \<^item> the table has one row per family, and the interval bounds of a row are the family's
    sorted trial scores at positions \<open>floor(0.025 N)\<close> and \<open>floor(0.975 N)\<close>.
  That \<open>random.randint\<close> is uniform is a property of the generator, outside the model.
\<close>

theorem bootstrap_same_draw_for_all:
  assumes "distinct (map fst families)"
    and "\<forall>(fname, fdata) \<in> set families. complete_profile fdata"
    and "''Hurro-Urartian'' \<in> set (map fst families)"
    and "0 < n"
  shows "\<exists>fds report g'.
           family_dim_scores families = Inr fds \<and>
           run_bootstrap_test families n g = Inr (report, g') \<and>
           (\<forall>t. length (trial_indices g 8 t) = 8 \<and>
                (\<forall>i \<in> set (trial_indices g 8 t). 0 \<le> i \<and> i < 8)) \<and>
           (\<forall>(fname, dims) \<in> set fds. length dims = 8 \<and>
              map_of (report_scores report) fname =
                Some (map (\<lambda>t. resampled_mean dims (trial_indices g 8 t)) [0 ..< n])) \<and>
           mset (map row_family (report_table report)) = mset (map fst families) \<and>
           (\<forall>row \<in> set (report_table report).
              \<exists>xs. map_of (report_scores report) (row_family row) = Some xs \<and>
                row_ci_low row = sort xs ! nat \<lfloor>0.025 * real n\<rfloor> \<and>
                row_ci_high row = sort xs ! nat \<lfloor>0.975 * real n\<rfloor>)"
proof -
  define names where "names = map fst families"
  from family_dim_scores_ok [OF assms(2)] obtain fds where
    fds: "family_dim_scores families = Inr fds" and
    keys: "map fst fds = names" and
    len8: "\<forall>(fname, dims) \<in> set fds. length dims = 8"
    unfolding names_def by blast
  have dn: "distinct names" using assms(1) by (simp add: names_def)
  have df: "distinct (map fst fds)" using dn keys by simp
  have hn: "''Hurro-Urartian'' \<in> set names" using assms(3) by (simp add: names_def)
  have look: "\<forall>f \<in> set names. \<exists>dims. map_of fds f = Some dims \<and> length dims = 8"
  proof
    fix f assume "f \<in> set names"
    then have "f \<in> fst ` set fds" using keys by (metis set_map)
    then obtain dims where m: "(f, dims) \<in> set fds" by auto
    with df have "map_of fds f = Some dims" by (rule map_of_is_SomeI)
    moreover from m len8 have "length dims = 8" by auto
    ultimately show "\<exists>dims. map_of fds f = Some dims \<and> length dims = 8" by blast
  qed
  from look hn obtain hu where hu: "map_of fds ''Hurro-Urartian'' = Some hu" "length hu = 8"
    by blast
  then have sub: "subscript fds ''Hurro-Urartian'' = Inr hu" by (simp add: subscript_def)
  define st0 where "st0 = \<lparr>bootstrap_scores = map (\<lambda>fname. (fname, [] :: real list)) names,
                hurrian_rank = [], hurrian_wins = 0\<rparr>"
  have init: "\<forall>f \<in> set names. map_of (bootstrap_scores st0) f =
           Some (map (\<lambda>u. resampled_mean (the (map_of fds f)) (trial_indices g 8 u)) [0 ..< 0])"
  proof
    fix f assume "f \<in> set names"
    then have "map_of (map (\<lambda>fname. (fname, [] :: real list)) names) f = Some []"
      by (induction names) auto
    then show "map_of (bootstrap_scores st0) f =
           Some (map (\<lambda>u. resampled_mean (the (map_of fds f)) (trial_indices g 8 u)) [0 ..< 0])"
      by (simp add: st0_def)
  qed
  have g0: "ints g = (\<lambda>i. ints g (0 * 8 + i))" by simp
  have pos8: "(0::nat) < 8" by simp
  from bootstrap_loop_ok [OF dn hn look pos8 init g0, of n] obtain st' g' where
    r: "bootstrap_loop n names fds 8 st0 g = Inr (st', g') \<and>
        map fst (bootstrap_scores st') = map fst (bootstrap_scores st0) \<and>
        (\<forall>f \<in> set names. map_of (bootstrap_scores st') f =
              Some (map (\<lambda>u. resampled_mean (the (map_of fds f)) (trial_indices g 8 u))
                      [0 ..< 0 + n]))"
    by (elim exE)
  from r have loop: "bootstrap_loop n names fds 8 st0 g = Inr (st', g')" by (rule conjunct1)
  from r have vals: "\<forall>f \<in> set names. map_of (bootstrap_scores st') f =
              Some (map (\<lambda>u. resampled_mean (the (map_of fds f)) (trial_indices g 8 u))
                      [0 ..< n])"
    using conjunct2 [THEN conjunct2] by simp
  have lens: "\<forall>f \<in> set names. \<exists>xs. map_of (bootstrap_scores st') f = Some xs \<and> length xs = n"
    using vals by simp
  from ci_table_ok [OF assms(4) lens] obtain table where
    tab: "ci_table (bootstrap_scores st') n names = Inr table" and
    fam: "mset (map row_family table) = mset names" and
    rows: "\<forall>row \<in> set table. \<exists>xs. map_of (bootstrap_scores st') (row_family row) = Some xs \<and>
              row_ci_low row = sort xs ! nat \<lfloor>0.025 * real n\<rfloor> \<and>
              row_ci_high row = sort xs ! nat \<lfloor>0.975 * real n\<rfloor>"
    by blast
  define report where "report = \<lparr>report_scores = bootstrap_scores st',
                  report_table = table,
                  report_win_pct = real (hurrian_wins st') / real n * 100\<rparr>"
  have run: "run_bootstrap_test families n g = Inr (report, g')"
    unfolding run_bootstrap_test_def fds
    using assms(4)
    by (simp add: and_then_def sub hu(2) Let_def names_def [symmetric] st0_def [symmetric]
        loop tab report_def)
  have per: "\<forall>(fname, dims) \<in> set fds. length dims = 8 \<and>
              map_of (report_scores report) fname =
                Some (map (\<lambda>t. resampled_mean dims (trial_indices g 8 t)) [0 ..< n])"
  proof (intro ballI, clarify)
    fix fname dims assume m: "(fname, dims) \<in> set fds"
    with df have l: "map_of fds fname = Some dims" by (rule map_of_is_SomeI)
    from m have "fname \<in> set names" using keys by (metis fst_conv image_eqI set_map)
    with vals l have "map_of (bootstrap_scores st') fname =
                Some (map (\<lambda>t. resampled_mean dims (trial_indices g 8 t)) [0 ..< n])" by simp
    moreover from m len8 have "length dims = 8" by auto
    ultimately show "length dims = 8 \<and>
              map_of (report_scores report) fname =
                Some (map (\<lambda>t. resampled_mean dims (trial_indices g 8 t)) [0 ..< n])"
      by (simp add: report_def)
  qed
  have ti: "\<forall>t. length (trial_indices g 8 t) = 8 \<and>
                (\<forall>i \<in> set (trial_indices g 8 t). 0 \<le> i \<and> i < 8)"
    using trial_indices_valid [OF pos8, of g] by simp
  show ?thesis
  proof (intro exI conjI)
    show "family_dim_scores families = Inr fds" by (rule fds)
    show "run_bootstrap_test families n g = Inr (report, g')" by (rule run)
    show "\<forall>t. length (trial_indices g 8 t) = 8 \<and>
                (\<forall>i \<in> set (trial_indices g 8 t). 0 \<le> i \<and> i < 8)" by (rule ti)
    show "\<forall>(fname, dims) \<in> set fds. length dims = 8 \<and>
              map_of (report_scores report) fname =
                Some (map (\<lambda>t. resampled_mean dims (trial_indices g 8 t)) [0 ..< n])" by (rule per)
    show "mset (map row_family (report_table report)) = mset (map fst families)"
      using fam by (simp add: report_def names_def)
    show "\<forall>row \<in> set (report_table report).
              \<exists>xs. map_of (report_scores report) (row_family row) = Some xs \<and>
                row_ci_low row = sort xs ! nat \<lfloor>0.025 * real n\<rfloor> \<and>
                row_ci_high row = sort xs ! nat \<lfloor>0.975 * real n\<rfloor>"
      using rows by (simp add: report_def)
  qed
qed


theorem bootstrap_same_draw_for_all_witness:
  "distinct (map fst LANGUAGE_FAMILIES) \<and>
   list_all (\<lambda>x. complete_profile (snd x)) LANGUAGE_FAMILIES \<and>
   ''Hurro-Urartian'' \<in> set (map fst LANGUAGE_FAMILIES) \<and> (0::nat) < 40 \<and>
   (\<exists>fds report g'.
      family_dim_scores LANGUAGE_FAMILIES = Inr fds \<and>
      run_bootstrap_test LANGUAGE_FAMILIES 40 \<lparr>ints = \<lambda>i. 3 * i + 1, normals = \<lambda>i. 0\<rparr>
        = Inr (report, g') \<and>
      mset (map row_family (report_table report)) = mset (map fst LANGUAGE_FAMILIES) \<and>
      list_all (\<lambda>row. \<exists>xs. map_of (report_scores report) (row_family row) = Some xs \<and>
           row_ci_low row = sort xs ! 1 \<and> row_ci_high row = sort xs ! 39)
        (report_table report))"
proof -
  have a: "distinct (map fst LANGUAGE_FAMILIES)" by (simp add: LANGUAGE_FAMILIES_def)
  have b': "list_all (\<lambda>x. complete_profile (snd x)) LANGUAGE_FAMILIES"
    by (simp add: LANGUAGE_FAMILIES_def complete_profile_def Hurro_Urartian_def Semitic_def
        Anatolian_IE_def Kartvelian_def Egyptian_def Tyrsenian_def)
  then have b: "\<forall>(fname, fdata) \<in> set LANGUAGE_FAMILIES. complete_profile fdata"
    by (auto simp: list_all_iff)
  have c: "''Hurro-Urartian'' \<in> set (map fst LANGUAGE_FAMILIES)"
    by (simp add: LANGUAGE_FAMILIES_def)
  have d: "(0::nat) < 40" by simp
  have lo: "nat \<lfloor>0.025 * real (40::nat)\<rfloor> = 1" by simp
  have hi: "nat \<lfloor>0.975 * real (40::nat)\<rfloor> = 39" by simp
  from bootstrap_same_draw_for_all [OF a b c d, of "\<lparr>ints = \<lambda>i. 3 * i + 1, normals = \<lambda>i. 0\<rparr>"]
  obtain fds report g' where
    r: "family_dim_scores LANGUAGE_FAMILIES = Inr fds"
       "run_bootstrap_test LANGUAGE_FAMILIES 40 \<lparr>ints = \<lambda>i. 3 * i + 1, normals = \<lambda>i. 0\<rparr>
          = Inr (report, g')"
       "mset (map row_family (report_table report)) = mset (map fst LANGUAGE_FAMILIES)"
       "\<forall>row \<in> set (report_table report).
              \<exists>xs. map_of (report_scores report) (row_family row) = Some xs \<and>
                row_ci_low row = sort xs ! nat \<lfloor>0.025 * real (40::nat)\<rfloor> \<and>
                row_ci_high row = sort xs ! nat \<lfloor>0.975 * real (40::nat)\<rfloor>"
    by blast
  from r(4) have "list_all (\<lambda>row. \<exists>xs. map_of (report_scores report) (row_family row) = Some xs \<and>
           row_ci_low row = sort xs ! 1 \<and> row_ci_high row = sort xs ! 39)
        (report_table report)"
    unfolding lo hi list_all_iff .
  with a b' c d r(1-3) show ?thesis by blast
qed
section \<open>Perturbation: how many features are flipped\<close>

lemma sample_pool_props:
  assumes "sample_pool k pool m g = (xs, g')" and "k \<le> m" and "m \<le> length pool"
    and "inj_on (nth pool) {..<m}"
  shows "length xs = k \<and> distinct xs \<and> set xs \<subseteq> nth pool ` {..<m}"
  using assms
proof (induction k arbitrary: pool m g xs g')
  case 0
  then show ?case by simp
next
  case (Suc k)
  let ?j = "ints g 0 mod m"
  let ?g1 = "g\<lparr>ints := \<lambda>i. ints g (Suc i)\<rparr>"
  let ?pool' = "pool[?j := pool ! (m - 1)]"
  obtain rest g2 where rec: "sample_pool k ?pool' (m - 1) ?g1 = (rest, g2)"
    by (cases "sample_pool k ?pool' (m - 1) ?g1")
  from Suc.prems(1) rec have xs: "xs = pool ! ?j # rest"
    by (simp add: randbelow_def Let_def)
  have m: "0 < m" using Suc.prems(2) by simp
  then have j: "?j < m" by simp
  have nth': "\<And>i. i < m - 1 \<Longrightarrow> ?pool' ! i = pool ! (if i = ?j then m - 1 else i)"
    using Suc.prems(3) j by (simp add: nth_list_update)
  have inj': "inj_on (nth ?pool') {..<m - 1}"
  proof (rule inj_onI)
    fix a b assume a: "a \<in> {..<m - 1}" and b: "b \<in> {..<m - 1}" and e: "?pool' ! a = ?pool' ! b"
    let ?h = "\<lambda>i. if i = ?j then m - 1 else i"
    from a b have "?h a < m" "?h b < m" using m by auto
    moreover from e a b have "pool ! ?h a = pool ! ?h b" using nth' by simp
    ultimately have "?h a = ?h b" using Suc.prems(4) by (simp add: inj_on_def)
    with a b show "a = b" by (auto split: if_splits)
  qed
  have "length rest = k \<and> distinct rest \<and> set rest \<subseteq> nth ?pool' ` {..<m - 1}"
  proof (rule Suc.IH [OF rec _ _ inj'])
    show "k \<le> m - 1" using Suc.prems(2) by simp
    show "m - 1 \<le> length ?pool'" using Suc.prems(3) by simp
  qed
  then have len: "length rest = k" and dist: "distinct rest"
    and sub: "set rest \<subseteq> nth ?pool' ` {..<m - 1}" by simp_all
  have sub': "nth ?pool' ` {..<m - 1} \<subseteq> nth pool ` ({..<m} - {?j})"
  proof
    fix y assume "y \<in> nth ?pool' ` {..<m - 1}"
    then obtain i where i: "i < m - 1" and y: "y = ?pool' ! i" by auto
    let ?h = "if i = ?j then m - 1 else i"
    have "?h \<in> {..<m} - {?j}" using i m by auto
    moreover have "y = pool ! ?h" using y nth' [OF i] by simp
    ultimately show "y \<in> nth pool ` ({..<m} - {?j})" by blast
  qed
  have notin: "pool ! ?j \<notin> nth pool ` ({..<m} - {?j})"
  proof
    assume "pool ! ?j \<in> nth pool ` ({..<m} - {?j})"
    then obtain i where "i < m" "i \<noteq> ?j" "pool ! ?j = pool ! i" by auto
    with j Suc.prems(4) show False by (auto simp: inj_on_def)
  qed
  have "pool ! ?j \<notin> set rest" using sub sub' notin by blast
  moreover have "set rest \<subseteq> nth pool ` {..<m}" using sub sub' by blast
  moreover have "pool ! ?j \<in> nth pool ` {..<m}" using j by blast
  ultimately show ?case using len dist xs by simp
qed

lemma sample_range_props:
  assumes "0 \<le> k" and "k \<le> int n"
  shows "\<exists>idxs g'. sample_range n k g = Inr (idxs, g')
           \<and> int (length idxs) = k \<and> distinct idxs \<and> set idxs \<subseteq> {..<n}"
proof -
  obtain idxs g' where s: "sample_pool (nat k) [0 ..< n] n g = (idxs, g')"
    by (cases "sample_pool (nat k) [0 ..< n] n g")
  have inj: "inj_on (nth [0 ..< n]) {..<n}" by (rule inj_onI) simp
  have "length idxs = nat k \<and> distinct idxs \<and> set idxs \<subseteq> nth [0 ..< n] ` {..<n}"
    by (rule sample_pool_props [OF s _ _ inj]) (use assms in simp_all)
  moreover have "nth [0 ..< n] ` {..<n} \<subseteq> {..<n}" by auto
  ultimately show ?thesis using assms s by (auto simp: sample_range_def)
qed

lemma py_int_nonneg: "0 \<le> x \<Longrightarrow> py_int x = \<lfloor>x\<rfloor>"
  by (simp add: py_int_def)

text \<open>
  Claim C6, as amended.  For every corruption rate \<open>r\<close> of \<open>[0, 1]\<close> (the sweep's rates
  are among them) the number of features selected for flipping is
  \<open>int(len(feature_names) * r)\<close>, the product truncated to an integer, for every candidate
  and whatever the generator's state: \<open>random.sample\<close> returns that many distinct
  positions of the feature list.  At \<open>r = 0.25\<close> with fourteen features that is 3.
\<close>

theorem n_flip_is_floor:
  assumes "0 \<le> r" and "r \<le> 1"
  shows "n_flip feature_names r = \<lfloor>real (length feature_names) * r\<rfloor>
         \<and> (\<exists>idxs g'. flip_indices feature_names r g = Inr (idxs, g')
               \<and> int (length idxs) = \<lfloor>real (length feature_names) * r\<rfloor>
               \<and> distinct idxs \<and> set idxs \<subseteq> {..<length feature_names})"
proof -
  let ?n = "length feature_names"
  have nn: "0 \<le> real ?n * r" using assms by simp
  then have nf: "n_flip feature_names r = \<lfloor>real ?n * r\<rfloor>"
    by (simp add: n_flip_def py_int_nonneg)
  have lo: "0 \<le> \<lfloor>real ?n * r\<rfloor>" using nn by simp
  have "real ?n * r \<le> real ?n" using assms by (simp add: mult_left_le)
  then have hi: "\<lfloor>real ?n * r\<rfloor> \<le> int ?n" by (simp add: floor_le_iff)
  from sample_range_props [OF lo hi, of g] nf show ?thesis
    by (simp add: flip_indices_def)
qed

theorem n_flip_is_floor_witness:
  "(0::real) \<le> 1 / 4 \<and> (1 / 4 :: real) \<le> 1 \<and> 1 / 4 \<in> set perturbation_levels \<and>
   n_flip feature_names (1 / 4) = 3 \<and>
   (\<exists>idxs g'. flip_indices feature_names (1 / 4) \<lparr>ints = \<lambda>i. 5 * i + 3, normals = \<lambda>i. 0\<rparr>
       = Inr (idxs, g') \<and> length idxs = 3 \<and> distinct idxs)"
proof -
  have f: "\<lfloor>real (length feature_names) * (1 / 4)\<rfloor> = 3"
    by (simp add: feature_names_def LINEAR_A_features_def)
  have l: "(1 / 4 :: real) \<in> set perturbation_levels" by (simp add: perturbation_levels_def)
  from n_flip_is_floor [of "1 / 4" "\<lparr>ints = \<lambda>i. 5 * i + 3, normals = \<lambda>i. 0\<rparr>"]
  show ?thesis unfolding f using l by auto
qed

text \<open>
  The claim as it was stated (\<open>round(r * feature_count)\<close>, four features at
  \<open>r = 0.25\<close>) fails at the sweep's rate \<open>0.25\<close>: the code selects \<open>int(3.5) = 3\<close>.
\<close>

theorem n_flip_round_counterexample:
  "n_flip feature_names (25 / 100) = 3 \<and> py_round (real (length feature_names) * (25 / 100)) = 4"
proof -
  have l: "length feature_names = 14" by (simp add: feature_names_def LINEAR_A_features_def)
  have fl: "\<lfloor>7 / 2 :: real\<rfloor> = 3" by (simp add: floor_eq_iff)
  have "n_flip feature_names (25 / 100) = 3"
    by (simp add: n_flip_def py_int_def l fl)
  moreover have "py_round (real (length feature_names) * (25 / 100)) = 4"
    by (simp add: py_round_def l fl Let_def)
  ultimately show ?thesis by simp
qed

section \<open>Phonetic similarity\<close>

lemma take2_drop:
  assumes "Suc i < length w"
  shows "take 2 (drop i w) = [w ! i, w ! Suc i]"
proof -
  have "drop i w = w ! i # drop (Suc i) w"
    using assms by (simp add: Cons_nth_drop_Suc)
  moreover have "drop (Suc i) w = w ! Suc i # drop (Suc (Suc i)) w"
    using assms by (simp add: Cons_nth_drop_Suc)
  ultimately show ?thesis by (simp add: numeral_2_eq_2)
qed

lemma set_bigrams: "set (bigrams w) = bigram_set w"
proof -
  have "(\<lambda>i. take 2 (drop i w)) ` {0 ..< length w - 1} = bigram_set w"
  proof (rule set_eqI, rule iffI)
    fix b assume "b \<in> (\<lambda>i. take 2 (drop i w)) ` {0 ..< length w - 1}"
    then obtain i where i: "i < length w - 1" and b: "b = take 2 (drop i w)" by auto
    from i have "Suc i < length w" by simp
    with b show "b \<in> bigram_set w"
      unfolding bigram_set_def using take2_drop by blast
  next
    fix b assume "b \<in> bigram_set w"
    then obtain i where i: "Suc i < length w" and b: "b = [w ! i, w ! Suc i]"
      unfolding bigram_set_def by blast
    from i have "i \<in> {0 ..< length w - 1}" by simp
    moreover from i b have "b = take 2 (drop i w)" by (simp add: take2_drop)
    ultimately show "b \<in> (\<lambda>i. take 2 (drop i w)) ` {0 ..< length w - 1}" by blast
  qed
  then show ?thesis by (simp add: bigrams_def)
qed

lemma length_bigrams: "length (bigrams w) = card (bigram_set w)"
proof -
  have "distinct (bigrams w)" by (simp add: bigrams_def)
  then have "length (bigrams w) = card (set (bigrams w))"
    by (simp add: distinct_card)
  then show ?thesis by (simp add: set_bigrams)
qed

lemma shared_bigrams:
  "length (filter (\<lambda>b. b \<in> set (bigrams w2)) (bigrams w1)) = card (bigram_set w1 \<inter> bigram_set w2)"
proof -
  have d: "distinct (filter (\<lambda>b. b \<in> set (bigrams w2)) (bigrams w1))"
    by (simp add: bigrams_def)
  have "set (filter (\<lambda>b. b \<in> set (bigrams w2)) (bigrams w1)) = bigram_set w1 \<inter> bigram_set w2"
    by (auto simp: set_bigrams)
  with d show ?thesis by (metis distinct_card)
qed

lemma bigrams_empty_iff: "bigrams w = [] \<longleftrightarrow> bigram_set w = {}"
  by (metis set_bigrams set_empty)

text \<open>
  Claim C7, as amended.  For every pair of words the similarity measure of the chance
  control is the number of shared bigrams divided by the size of the larger of the two
  bigram sets, \<open>|B1 \<inter> B2| / max |B1| |B2|\<close>, and \<open>0\<close> when either set is empty.
\<close>

theorem phonetic_similarity_shared_over_max:
  "phonetic_similarity w1 w2 =
     (if bigram_set w1 = {} \<or> bigram_set w2 = {} then 0
      else real (card (bigram_set w1 \<inter> bigram_set w2)) /
           real (max (card (bigram_set w1)) (card (bigram_set w2))))"
  by (simp add: phonetic_similarity_def Let_def shared_bigrams length_bigrams bigrams_empty_iff)

theorem phonetic_similarity_shared_over_max_witness:
  "phonetic_similarity ''atai'' ''attai'' = 3 / 4"
proof -
  have b1: "bigrams ''atai'' = [''at'', ''ta'', ''ai'']"
    by (simp add: bigrams_def upt_conv_Cons)
  have b2: "bigrams ''attai'' = [''at'', ''tt'', ''ta'', ''ai'']"
    by (simp add: bigrams_def upt_conv_Cons)
  have s1: "bigram_set ''atai'' = {''at'', ''ta'', ''ai''}"
    using set_bigrams [of "''atai''"] b1 by simp
  have s2: "bigram_set ''attai'' = {''at'', ''tt'', ''ta'', ''ai''}"
    using set_bigrams [of "''attai''"] b2 by simp
  have i: "bigram_set ''atai'' \<inter> bigram_set ''attai'' = {''at'', ''ta'', ''ai''}"
    unfolding s1 s2 by auto
  show ?thesis
    using phonetic_similarity_shared_over_max [of "''atai''" "''attai''"]
    unfolding i unfolding s1 s2 by simp
qed

text \<open>
  The claim as it was stated (the Jaccard overlap \<open>|B1 \<inter> B2| / |B1 \<union> B2|\<close>) fails for the
  words \<open>abc\<close> and \<open>abd\<close>: one shared bigram out of two on each side gives \<open>1/2\<close>, while
  the union has three bigrams and the Jaccard overlap is \<open>1/3\<close>.
\<close>

theorem phonetic_similarity_jaccard_counterexample:
  "phonetic_similarity ''abc'' ''abd'' = 1 / 2 \<and>
   jaccard (bigram_set ''abc'') (bigram_set ''abd'') = 1 / 3"
proof -
  have b1: "bigrams ''abc'' = [''ab'', ''bc'']" by (simp add: bigrams_def upt_conv_Cons)
  have b2: "bigrams ''abd'' = [''ab'', ''bd'']" by (simp add: bigrams_def upt_conv_Cons)
  have s1: "bigram_set ''abc'' = {''ab'', ''bc''}" using set_bigrams [of "''abc''"] b1 by simp
  have s2: "bigram_set ''abd'' = {''ab'', ''bd''}" using set_bigrams [of "''abd''"] b2 by simp
  have i: "bigram_set ''abc'' \<inter> bigram_set ''abd'' = {''ab''}" unfolding s1 s2 by auto
  have u: "bigram_set ''abc'' \<union> bigram_set ''abd'' = {''ab'', ''bc'', ''bd''}"
    unfolding s1 s2 by auto
  have "phonetic_similarity ''abc'' ''abd'' = 1 / 2"
    by (simp add: phonetic_similarity_def Let_def b1 b2)
  moreover have "jaccard (bigram_set ''abc'') (bigram_set ''abd'') = 1 / 3"
    unfolding jaccard_def i u by simp
  ultimately show ?thesis by simp
qed

section \<open>Bayesian convergence\<close>














subsection \<open>Evaluating the double arithmetic\<close>

lemma scale_up_steps:
  assumes "j \<le> k" and "2 ^ 52 \<le> x * 2 ^ j" and "x * 2 ^ j < 2 ^ 53" and "0 < x"
  shows "scale_up k x u = (x * 2 ^ j, u / 2 ^ j)"
  using assms
proof (induction j arbitrary: k x u)
  case 0
  then have "\<not> x < 2 ^ 52" by simp
  then show ?case by (cases k) simp_all
next
  case (Suc j)
  then obtain k' where k: "k = Suc k'" and jk: "j \<le> k'" by (cases k) auto
  have "x * 2 ^ Suc j < 2 ^ 53" by (rule Suc.prems(3))
  moreover have "x * 2 \<le> x * 2 ^ Suc j" using Suc.prems(4) by simp
  ultimately have "x * 2 < 2 ^ 53" by linarith
  then have small: "x < 2 ^ 52" by simp
  have "scale_up k' (x * 2) (u / 2) = (x * 2 * 2 ^ j, u / 2 / 2 ^ j)"
    by (rule Suc.IH [OF jk]) (use Suc.prems in \<open>simp_all add: mult.assoc\<close>)
  then show ?case using small by (simp add: k mult.assoc)
qed

lemma scale_down_steps:
  assumes "2 ^ 52 \<le> x / 2 ^ j" and "x / 2 ^ j < 2 ^ 53"
  shows "scale_down x u = (x / 2 ^ j, u * 2 ^ j)"
  using assms
proof (induction j arbitrary: x u)
  case 0
  then show ?case by (simp add: scale_down.simps)
next
  case (Suc j)
  have e: "x / 2 / 2 ^ j = x / 2 ^ Suc j" by simp
  have p2: "(0 :: real) < 2 ^ Suc j" by simp
  have a: "2 ^ 52 * 2 ^ Suc j \<le> x"
    using Suc.prems(1) p2 by (simp only: pos_le_divide_eq)
  have "(1 :: real) \<le> 2 ^ j" by simp
  then have "(2 :: real) ^ 53 * 1 \<le> 2 ^ 53 * 2 ^ j" by (intro mult_left_mono) simp_all
  then have b: "(2 :: real) ^ 53 \<le> 2 ^ 52 * 2 ^ Suc j" by simp
  from a b have big: "2 ^ 53 \<le> x" by (rule order_trans [rotated])
  have "scale_down (x / 2) (u * 2) = (x / 2 / 2 ^ j, u * 2 * 2 ^ j)"
    by (rule Suc.IH) (use Suc.prems e in simp_all)
  then have "scale_down (x / 2) (u * 2) = (x / 2 ^ Suc j, u * 2 ^ Suc j)"
    by (simp add: mult.assoc)
  moreover have "scale_down x u = scale_down (x / 2) (u * 2)"
    using big by (subst scale_down.simps) simp
  ultimately show ?case by simp
qed

lemma round_double_small:
  assumes "0 < x" and "j \<le> 1074" and "2 ^ 52 \<le> x * 2 ^ j" and "x * 2 ^ j < 2 ^ 53"
  shows "round_double x = real_of_int (nearest_even (x * 2 ^ j)) / 2 ^ j"
proof -
  have "x \<le> x * 2 ^ j" using assms(1) by simp
  with assms(4) have "x < 2 ^ 53" by linarith
  then have d: "scale_down x 1 = (x, 1)" by (simp add: scale_down.simps)
  have u: "scale_up 1074 x 1 = (x * 2 ^ j, 1 / 2 ^ j)"
    by (rule scale_up_steps [OF assms(2,3,4,1)])
  show ?thesis using assms(1) by (simp add: round_double_def d u)
qed

lemma round_double_large:
  assumes "2 ^ 52 \<le> x / 2 ^ j" and "x / 2 ^ j < 2 ^ 53"
  shows "round_double x = real_of_int (nearest_even (x / 2 ^ j)) * 2 ^ j"
proof -
  have "(0 :: real) < 2 ^ 52" by simp
  from this assms(1) have pos: "0 < x / 2 ^ j" by (rule less_le_trans)
  then have x: "0 < x" by (simp add: zero_less_divide_iff)
  have d: "scale_down x 1 = (x / 2 ^ j, 2 ^ j)"
    using scale_down_steps [OF assms, of 1] by simp
  have u: "scale_up 1074 (x / 2 ^ j) (2 ^ j) = (x / 2 ^ j, 2 ^ j)"
    using scale_up_steps [of 0 1074 "x / 2 ^ j" "2 ^ j"] assms pos by simp
  show ?thesis using x by (simp add: round_double_def d u)
qed

lemma round_double_zero: "round_double 0 = 0"
  by (simp add: round_double_def)


lemma prior_value: "prior = 3602879701896397 / 36028797018963968"
  unfolding prior_def
  by (subst round_double_small [where j = 56]) (simp_all add: nearest_even_def)

lemma strong_step_1:
  "bayes_step_with round_double (3602879701896397 / 36028797018963968) (5) = Inr (6433713753386423 / 18014398509481984)"
proof -
  have d: "round_double (32425917317067571 / 36028797018963968) = 8106479329266893 / 9007199254740992"
    by (subst round_double_small [where j = 53]) (simp_all add: nearest_even_def)
  have o: "round_double (3602879701896397 / 32425917317067572) = 8006399337547549 / 72057594037927936"
    by (subst round_double_small [where j = 56]) (simp_all add: nearest_even_def)
  have m: "round_double (40031996687737745 / 72057594037927936) = 2501999792983609 / 4503599627370496"
    by (subst round_double_small [where j = 53]) (simp_all add: nearest_even_def)
  have a: "round_double (7005599420354105 / 4503599627370496) = 7005599420354105 / 4503599627370496"
    by (subst round_double_small [where j = 52]) (simp_all add: nearest_even_def)
  have r: "round_double (2501999792983609 / 7005599420354105) = 6433713753386423 / 18014398509481984"
    by (subst round_double_small [where j = 54]) (simp_all add: nearest_even_def)
  show ?thesis by (simp add: bayes_step_with_def Let_def d o m a r)
qed

lemma strong_step_2:
  "bayes_step_with round_double (6433713753386423 / 18014398509481984) (5) = Inr (6622940628486023 / 9007199254740992)"
proof -
  have d: "round_double (11580684756095561 / 18014398509481984) = 1447585594511945 / 2251799813685248"
    by (subst round_double_small [where j = 53]) (simp_all add: nearest_even_def)
  have o: "round_double (919101964769489 / 1654383536585080) = 2501999792983609 / 4503599627370496"
    by (subst round_double_small [where j = 53]) (simp_all add: nearest_even_def)
  have m: "round_double (12509998964918045 / 4503599627370496) = 3127499741229511 / 1125899906842624"
    by (subst round_double_small [where j = 51]) (simp_all add: nearest_even_def)
  have a: "round_double (4253399648072135 / 1125899906842624) = 4253399648072135 / 1125899906842624"
    by (subst round_double_small [where j = 51]) (simp_all add: nearest_even_def)
  have r: "round_double (3127499741229511 / 4253399648072135) = 6622940628486023 / 9007199254740992"
    by (subst round_double_small [where j = 53]) (simp_all add: nearest_even_def)
  show ?thesis by (simp add: bayes_step_with_def Let_def d o m a r)
qed

lemma strong_step_3:
  "bayes_step_with round_double (6622940628486023 / 9007199254740992) (5) = Inr (8402238110765851 / 9007199254740992)"
proof -
  have d: "round_double (2384258626254969 / 9007199254740992) = 2384258626254969 / 9007199254740992"
    by (subst round_double_small [where j = 54]) (simp_all add: nearest_even_def)
  have o: "round_double (6622940628486023 / 2384258626254969) = 1563749870614755 / 562949953421312"
    by (subst round_double_small [where j = 51]) (simp_all add: nearest_even_def)
  have m: "round_double (7818749353073775 / 562949953421312) = 7818749353073775 / 562949953421312"
    by (subst round_double_small [where j = 49]) (simp_all add: nearest_even_def)
  have a: "round_double (8381699306495087 / 562949953421312) = 8381699306495087 / 562949953421312"
    by (subst round_double_small [where j = 49]) (simp_all add: nearest_even_def)
  have r: "round_double (7818749353073775 / 8381699306495087) = 8402238110765851 / 9007199254740992"
    by (subst round_double_small [where j = 53]) (simp_all add: nearest_even_def)
  show ?thesis by (simp add: bayes_step_with_def Let_def d o m a r)
qed

lemma strong_step_4:
  "bayes_step_with round_double (8402238110765851 / 9007199254740992) (5) = Inr (8879336804752555 / 9007199254740992)"
proof -
  have d: "round_double (604961143975141 / 9007199254740992) = 604961143975141 / 9007199254740992"
    by (subst round_double_small [where j = 56]) (simp_all add: nearest_even_def)
  have o: "round_double (8402238110765851 / 604961143975141) = 7818749353073781 / 562949953421312"
    by (subst round_double_small [where j = 49]) (simp_all add: nearest_even_def)
  have m: "round_double (39093746765368905 / 562949953421312) = 4886718345671113 / 70368744177664"
    by (subst round_double_small [where j = 46]) (simp_all add: nearest_even_def)
  have a: "round_double (4957087089848777 / 70368744177664) = 4957087089848777 / 70368744177664"
    by (subst round_double_small [where j = 46]) (simp_all add: nearest_even_def)
  have r: "round_double (4886718345671113 / 4957087089848777) = 8879336804752555 / 9007199254740992"
    by (subst round_double_small [where j = 53]) (simp_all add: nearest_even_def)
  show ?thesis by (simp add: bayes_step_with_def Let_def d o m a r)
qed

lemma strong_step_5:
  "bayes_step_with round_double (8879336804752555 / 9007199254740992) (5) = Inr (8981333015655903 / 9007199254740992)"
proof -
  have d: "round_double (127862449988437 / 9007199254740992) = 127862449988437 / 9007199254740992"
    by (subst round_double_small [where j = 59]) (simp_all add: nearest_even_def)
  have o: "round_double (8879336804752555 / 127862449988437) = 4886718345671103 / 70368744177664"
    by (subst round_double_small [where j = 46]) (simp_all add: nearest_even_def)
  have m: "round_double (24433591728355515 / 70368744177664) = 6108397932088879 / 17592186044416"
    by (subst round_double_small [where j = 44]) (simp_all add: nearest_even_def)
  have a: "round_double (6125990118133295 / 17592186044416) = 6125990118133295 / 17592186044416"
    by (subst round_double_small [where j = 44]) (simp_all add: nearest_even_def)
  have r: "round_double (6108397932088879 / 6125990118133295) = 8981333015655903 / 9007199254740992"
    by (subst round_double_small [where j = 53]) (simp_all add: nearest_even_def)
  show ?thesis by (simp add: bayes_step_with_def Let_def d o m a r)
qed

lemma strong_step_6:
  "bayes_step_with round_double (8981333015655903 / 9007199254740992) (5) = Inr (9002014094622489 / 9007199254740992)"
proof -
  have d: "round_double (25866239085089 / 9007199254740992) = 25866239085089 / 9007199254740992"
    by (subst round_double_small [where j = 61]) (simp_all add: nearest_even_def)
  have o: "round_double (8981333015655903 / 25866239085089) = 6108397932088889 / 17592186044416"
    by (subst round_double_small [where j = 44]) (simp_all add: nearest_even_def)
  have m: "round_double (30541989660444445 / 17592186044416) = 7635497415111111 / 4398046511104"
    by (subst round_double_small [where j = 42]) (simp_all add: nearest_even_def)
  have a: "round_double (7639895461622215 / 4398046511104) = 7639895461622215 / 4398046511104"
    by (subst round_double_small [where j = 42]) (simp_all add: nearest_even_def)
  have r: "round_double (7635497415111111 / 7639895461622215) = 9002014094622489 / 9007199254740992"
    by (subst round_double_small [where j = 53]) (simp_all add: nearest_even_def)
  show ?thesis by (simp add: bayes_step_with_def Let_def d o m a r)
qed

lemma strong_step_7:
  "bayes_step_with round_double (9002014094622489 / 9007199254740992) (5) = Inr (9006161744907979 / 9007199254740992)"
proof -
  have d: "round_double (5185160118503 / 9007199254740992) = 5185160118503 / 9007199254740992"
    by (subst round_double_small [where j = 63]) (simp_all add: nearest_even_def)
  have o: "round_double (9002014094622489 / 5185160118503) = 3817748707555227 / 2199023255552"
    by (subst round_double_small [where j = 42]) (simp_all add: nearest_even_def)
  have m: "round_double (19088743537776135 / 2199023255552) = 2386092942222017 / 274877906944"
    by (subst round_double_small [where j = 39]) (simp_all add: nearest_even_def)
  have a: "round_double (2386367820128961 / 274877906944) = 2386367820128961 / 274877906944"
    by (subst round_double_small [where j = 39]) (simp_all add: nearest_even_def)
  have r: "round_double (2386092942222017 / 2386367820128961) = 9006161744907979 / 9007199254740992"
    by (subst round_double_small [where j = 53]) (simp_all add: nearest_even_def)
  show ?thesis by (simp add: bayes_step_with_def Let_def d o m a r)
qed

lemma strong_step_8:
  "bayes_step_with round_double (9006161744907979 / 9007199254740992) (5) = Inr (9006991733651449 / 9007199254740992)"
proof -
  have d: "round_double (1037509833013 / 9007199254740992) = 1037509833013 / 9007199254740992"
    by (subst round_double_small [where j = 66]) (simp_all add: nearest_even_def)
  have o: "round_double (9006161744907979 / 1037509833013) = 4772185884446281 / 549755813888"
    by (subst round_double_small [where j = 39]) (simp_all add: nearest_even_def)
  have m: "round_double (23860929422231405 / 549755813888) = 5965232355557851 / 137438953472"
    by (subst round_double_small [where j = 37]) (simp_all add: nearest_even_def)
  have a: "round_double (5965369794511323 / 137438953472) = 5965369794511323 / 137438953472"
    by (subst round_double_small [where j = 37]) (simp_all add: nearest_even_def)
  have r: "round_double (5965232355557851 / 5965369794511323) = 9006991733651449 / 9007199254740992"
    by (subst round_double_small [where j = 53]) (simp_all add: nearest_even_def)
  show ?thesis by (simp add: bayes_step_with_def Let_def d o m a r)
qed

lemma strong_step_9:
  "bayes_step_with round_double (9006991733651449 / 9007199254740992) (5) = Inr (9007157749758081 / 9007199254740992)"
proof -
  have d: "round_double (207521089543 / 9007199254740992) = 207521089543 / 9007199254740992"
    by (subst round_double_small [where j = 68]) (simp_all add: nearest_even_def)
  have o: "round_double (9006991733651449 / 207521089543) = 186413511111407 / 4294967296"
    by (subst round_double_small [where j = 37]) (simp_all add: nearest_even_def)
  have m: "round_double (932067555557035 / 4294967296) = 932067555557035 / 4294967296"
    by (subst round_double_small [where j = 35]) (simp_all add: nearest_even_def)
  have a: "round_double (932071850524331 / 4294967296) = 932071850524331 / 4294967296"
    by (subst round_double_small [where j = 35]) (simp_all add: nearest_even_def)
  have r: "round_double (932067555557035 / 932071850524331) = 9007157749758081 / 9007199254740992"
    by (subst round_double_small [where j = 53]) (simp_all add: nearest_even_def)
  show ?thesis by (simp add: bayes_step_with_def Let_def d o m a r)
qed

lemma strong_step_10:
  "bayes_step_with round_double (9007157749758081 / 9007199254740992) (5) = Inr (9007190953713809 / 9007199254740992)"
proof -
  have d: "round_double (41504982911 / 9007199254740992) = 41504982911 / 9007199254740992"
    by (subst round_double_small [where j = 70]) (simp_all add: nearest_even_def)
  have o: "round_double (9007157749758081 / 41504982911) = 7456540444423827 / 34359738368"
    by (subst round_double_small [where j = 35]) (simp_all add: nearest_even_def)
  have m: "round_double (37282702222119135 / 34359738368) = 1165084444441223 / 1073741824"
    by (subst round_double_small [where j = 32]) (simp_all add: nearest_even_def)
  have a: "round_double (1165085518183047 / 1073741824) = 1165085518183047 / 1073741824"
    by (subst round_double_small [where j = 32]) (simp_all add: nearest_even_def)
  have r: "round_double (1165084444441223 / 1165085518183047) = 9007190953713809 / 9007199254740992"
    by (subst round_double_small [where j = 53]) (simp_all add: nearest_even_def)
  show ?thesis by (simp add: bayes_step_with_def Let_def d o m a r)
qed

lemma strong_step_11:
  "bayes_step_with round_double (9007190953713809 / 9007199254740992) (5) = Inr (9007197594534331 / 9007199254740992)"
proof -
  have d: "round_double (8301027183 / 9007199254740992) = 8301027183 / 9007199254740992"
    by (subst round_double_small [where j = 73]) (simp_all add: nearest_even_def)
  have o: "round_double (9007190953713809 / 8301027183) = 2330168888872789 / 2147483648"
    by (subst round_double_small [where j = 32]) (simp_all add: nearest_even_def)
  have m: "round_double (11650844444363945 / 2147483648) = 1456355555545493 / 268435456"
    by (subst round_double_small [where j = 30]) (simp_all add: nearest_even_def)
  have a: "round_double (1456355823980949 / 268435456) = 1456355823980949 / 268435456"
    by (subst round_double_small [where j = 30]) (simp_all add: nearest_even_def)
  have r: "round_double (1456355555545493 / 1456355823980949) = 9007197594534331 / 9007199254740992"
    by (subst round_double_small [where j = 53]) (simp_all add: nearest_even_def)
  show ?thesis by (simp add: bayes_step_with_def Let_def d o m a r)
qed

lemma strong_step_12:
  "bayes_step_with round_double (9007197594534331 / 9007199254740992) (5) = Inr (9007198922699611 / 9007199254740992)"
proof -
  have d: "round_double (1660206661 / 9007199254740992) = 1660206661 / 9007199254740992"
    by (subst round_double_small [where j = 75]) (simp_all add: nearest_even_def)
  have o: "round_double (9007197594534331 / 1660206661) = 2912711110452443 / 536870912"
    by (subst round_double_small [where j = 30]) (simp_all add: nearest_even_def)
  have m: "round_double (14563555552262215 / 536870912) = 1820444444032777 / 67108864"
    by (subst round_double_small [where j = 28]) (simp_all add: nearest_even_def)
  have a: "round_double (1820444511141641 / 67108864) = 1820444511141641 / 67108864"
    by (subst round_double_small [where j = 28]) (simp_all add: nearest_even_def)
  have r: "round_double (1820444444032777 / 1820444511141641) = 9007198922699611 / 9007199254740992"
    by (subst round_double_small [where j = 53]) (simp_all add: nearest_even_def)
  show ?thesis by (simp add: bayes_step_with_def Let_def d o m a r)
qed

lemma strong_step_13:
  "bayes_step_with round_double (9007198922699611 / 9007199254740992) (5) = Inr (4503599594166357 / 4503599627370496)"
proof -
  have d: "round_double (332041381 / 9007199254740992) = 332041381 / 9007199254740992"
    by (subst round_double_small [where j = 77]) (simp_all add: nearest_even_def)
  have o: "round_double (9007198922699611 / 332041381) = 7281777779672525 / 268435456"
    by (subst round_double_small [where j = 28]) (simp_all add: nearest_even_def)
  have m: "round_double (36408888898362625 / 268435456) = 142222222259229 / 1048576"
    by (subst round_double_small [where j = 25]) (simp_all add: nearest_even_def)
  have a: "round_double (142222223307805 / 1048576) = 142222223307805 / 1048576"
    by (subst round_double_small [where j = 25]) (simp_all add: nearest_even_def)
  have r: "round_double (142222222259229 / 142222223307805) = 4503599594166357 / 4503599627370496"
    by (subst round_double_small [where j = 53]) (simp_all add: nearest_even_def)
  show ?thesis by (simp add: bayes_step_with_def Let_def d o m a r)
qed

lemma strong_step_14:
  "bayes_step_with round_double (4503599594166357 / 4503599627370496) (5) = Inr (1125899905182417 / 1125899906842624)"
proof -
  have d: "round_double (33204139 / 4503599627370496) = 33204139 / 4503599627370496"
    by (subst round_double_small [where j = 80]) (simp_all add: nearest_even_def)
  have o: "round_double (4503599594166357 / 33204139) = 568888890394367 / 4194304"
    by (subst round_double_small [where j = 25]) (simp_all add: nearest_even_def)
  have m: "round_double (2844444451971835 / 4194304) = 2844444451971835 / 4194304"
    by (subst round_double_small [where j = 23]) (simp_all add: nearest_even_def)
  have a: "round_double (2844444456166139 / 4194304) = 2844444456166139 / 4194304"
    by (subst round_double_small [where j = 23]) (simp_all add: nearest_even_def)
  have r: "round_double (2844444451971835 / 2844444456166139) = 1125899905182417 / 1125899906842624"
    by (subst round_double_small [where j = 53]) (simp_all add: nearest_even_def)
  show ?thesis by (simp add: bayes_step_with_def Let_def d o m a r)
qed

lemma strong_step_15:
  "bayes_step_with round_double (1125899905182417 / 1125899906842624) (5) = Inr (9007199252084661 / 9007199254740992)"
proof -
  have d: "round_double (1660207 / 1125899906842624) = 1660207 / 1125899906842624"
    by (subst round_double_small [where j = 82]) (simp_all add: nearest_even_def)
  have o: "round_double (1125899905182417 / 1660207) = 2844444383083695 / 4194304"
    by (subst round_double_small [where j = 23]) (simp_all add: nearest_even_def)
  have m: "round_double (14222221915418475 / 4194304) = 3555555478854619 / 1048576"
    by (subst round_double_small [where j = 21]) (simp_all add: nearest_even_def)
  have a: "round_double (3555555479903195 / 1048576) = 3555555479903195 / 1048576"
    by (subst round_double_small [where j = 21]) (simp_all add: nearest_even_def)
  have r: "round_double (3555555478854619 / 3555555479903195) = 9007199252084661 / 9007199254740992"
    by (subst round_double_small [where j = 53]) (simp_all add: nearest_even_def)
  show ?thesis by (simp add: bayes_step_with_def Let_def d o m a r)
qed

lemma strong_step_16:
  "bayes_step_with round_double (9007199252084661 / 9007199254740992) (5) = Inr (4503599627104863 / 4503599627370496)"
proof -
  have d: "round_double (2656331 / 9007199254740992) = 2656331 / 9007199254740992"
    by (subst round_double_small [where j = 84]) (simp_all add: nearest_even_def)
  have o: "round_double (9007199252084661 / 2656331) = 7111111501506345 / 2097152"
    by (subst round_double_small [where j = 21]) (simp_all add: nearest_even_def)
  have m: "round_double (35555557507531725 / 2097152) = 8888889376882931 / 524288"
    by (subst round_double_small [where j = 19]) (simp_all add: nearest_even_def)
  have a: "round_double (8888889377407219 / 524288) = 8888889377407219 / 524288"
    by (subst round_double_small [where j = 19]) (simp_all add: nearest_even_def)
  have r: "round_double (8888889376882931 / 8888889377407219) = 4503599627104863 / 4503599627370496"
    by (subst round_double_small [where j = 53]) (simp_all add: nearest_even_def)
  show ?thesis by (simp add: bayes_step_with_def Let_def d o m a r)
qed

lemma strong_step_17:
  "bayes_step_with round_double (4503599627104863 / 4503599627370496) (5) = Inr (9007199254634739 / 9007199254740992)"
proof -
  have d: "round_double (265633 / 4503599627370496) = 265633 / 4503599627370496"
    by (subst round_double_small [where j = 86]) (simp_all add: nearest_even_def)
  have o: "round_double (4503599627104863 / 265633) = 4444446362642357 / 262144"
    by (subst round_double_small [where j = 19]) (simp_all add: nearest_even_def)
  have m: "round_double (22222231813211785 / 262144) = 2777778976651473 / 32768"
    by (subst round_double_small [where j = 16]) (simp_all add: nearest_even_def)
  have a: "round_double (2777778976684241 / 32768) = 2777778976684241 / 32768"
    by (subst round_double_small [where j = 16]) (simp_all add: nearest_even_def)
  have r: "round_double (2777778976651473 / 2777778976684241) = 9007199254634739 / 9007199254740992"
    by (subst round_double_small [where j = 53]) (simp_all add: nearest_even_def)
  show ?thesis by (simp add: bayes_step_with_def Let_def d o m a r)
qed

lemma strong_step_18:
  "bayes_step_with round_double (9007199254634739 / 9007199254740992) (5) = Inr (9007199254719741 / 9007199254740992)"
proof -
  have d: "round_double (106253 / 9007199254740992) = 106253 / 9007199254740992"
    by (subst round_double_small [where j = 89]) (simp_all add: nearest_even_def)
  have o: "round_double (9007199254634739 / 106253) = 5555568410790681 / 65536"
    by (subst round_double_small [where j = 16]) (simp_all add: nearest_even_def)
  have m: "round_double (27777842053953405 / 65536) = 6944460513488351 / 16384"
    by (subst round_double_small [where j = 14]) (simp_all add: nearest_even_def)
  have a: "round_double (6944460513504735 / 16384) = 6944460513504735 / 16384"
    by (subst round_double_small [where j = 14]) (simp_all add: nearest_even_def)
  have r: "round_double (6944460513488351 / 6944460513504735) = 9007199254719741 / 9007199254740992"
    by (subst round_double_small [where j = 53]) (simp_all add: nearest_even_def)
  show ?thesis by (simp add: bayes_step_with_def Let_def d o m a r)
qed

lemma strong_step_19:
  "bayes_step_with round_double (9007199254719741 / 9007199254740992) (5) = Inr (4503599627368371 / 4503599627370496)"
proof -
  have d: "round_double (21251 / 9007199254740992) = 21251 / 9007199254740992"
    by (subst round_double_small [where j = 91]) (simp_all add: nearest_even_def)
  have o: "round_double (9007199254719741 / 21251) = 6944329800448367 / 16384"
    by (subst round_double_small [where j = 14]) (simp_all add: nearest_even_def)
  have m: "round_double (34721649002241835 / 16384) = 8680412250560459 / 4096"
    by (subst round_double_small [where j = 12]) (simp_all add: nearest_even_def)
  have a: "round_double (8680412250564555 / 4096) = 8680412250564555 / 4096"
    by (subst round_double_small [where j = 12]) (simp_all add: nearest_even_def)
  have r: "round_double (8680412250560459 / 8680412250564555) = 4503599627368371 / 4503599627370496"
    by (subst round_double_small [where j = 53]) (simp_all add: nearest_even_def)
  show ?thesis by (simp add: bayes_step_with_def Let_def d o m a r)
qed

lemma strong_step_20:
  "bayes_step_with round_double (4503599627368371 / 4503599627370496) (5) = Inr (4503599627370071 / 4503599627370496)"
proof -
  have d: "round_double (2125 / 4503599627370496) = 2125 / 4503599627370496"
    by (subst round_double_small [where j = 93]) (simp_all add: nearest_even_def)
  have o: "round_double (4503599627368371 / 2125) = 8680820740565105 / 4096"
    by (subst round_double_small [where j = 12]) (simp_all add: nearest_even_def)
  have m: "round_double (43404103702825525 / 4096) = 5425512962853191 / 512"
    by (subst round_double_small [where j = 9]) (simp_all add: nearest_even_def)
  have a: "round_double (5425512962853703 / 512) = 5425512962853703 / 512"
    by (subst round_double_small [where j = 9]) (simp_all add: nearest_even_def)
  have r: "round_double (5425512962853191 / 5425512962853703) = 4503599627370071 / 4503599627370496"
    by (subst round_double_small [where j = 53]) (simp_all add: nearest_even_def)
  show ?thesis by (simp add: bayes_step_with_def Let_def d o m a r)
qed

lemma strong_step_21:
  "bayes_step_with round_double (4503599627370071 / 4503599627370496) (5) = Inr (4503599627370411 / 4503599627370496)"
proof -
  have d: "round_double (425 / 4503599627370496) = 425 / 4503599627370496"
    by (subst round_double_small [where j = 96]) (simp_all add: nearest_even_def)
  have o: "round_double (4503599627370071 / 425) = 2712756481427619 / 256"
    by (subst round_double_small [where j = 9]) (simp_all add: nearest_even_def)
  have m: "round_double (13563782407138095 / 256) = 847736400446131 / 16"
    by (subst round_double_small [where j = 7]) (simp_all add: nearest_even_def)
  have a: "round_double (847736400446147 / 16) = 847736400446147 / 16"
    by (subst round_double_small [where j = 7]) (simp_all add: nearest_even_def)
  have r: "round_double (847736400446131 / 847736400446147) = 4503599627370411 / 4503599627370496"
    by (subst round_double_small [where j = 53]) (simp_all add: nearest_even_def)
  show ?thesis by (simp add: bayes_step_with_def Let_def d o m a r)
qed

lemma strong_step_22:
  "bayes_step_with round_double (4503599627370411 / 4503599627370496) (5) = Inr (4503599627370479 / 4503599627370496)"
proof -
  have d: "round_double (85 / 4503599627370496) = 85 / 4503599627370496"
    by (subst round_double_small [where j = 98]) (simp_all add: nearest_even_def)
  have o: "round_double (4503599627370411 / 85) = 847736400446195 / 16"
    by (subst round_double_small [where j = 7]) (simp_all add: nearest_even_def)
  have m: "round_double (4238682002230975 / 16) = 4238682002230975 / 16"
    by (subst round_double_small [where j = 5]) (simp_all add: nearest_even_def)
  have a: "round_double (4238682002230991 / 16) = 4238682002230991 / 16"
    by (subst round_double_small [where j = 5]) (simp_all add: nearest_even_def)
  have r: "round_double (4238682002230975 / 4238682002230991) = 4503599627370479 / 4503599627370496"
    by (subst round_double_small [where j = 53]) (simp_all add: nearest_even_def)
  show ?thesis by (simp add: bayes_step_with_def Let_def d o m a r)
qed

lemma strong_step_23:
  "bayes_step_with round_double (4503599627370479 / 4503599627370496) (5) = Inr (9007199254740985 / 9007199254740992)"
proof -
  have d: "round_double (17 / 4503599627370496) = 17 / 4503599627370496"
    by (subst round_double_small [where j = 100]) (simp_all add: nearest_even_def)
  have o: "round_double (4503599627370479 / 17) = 4238682002231039 / 16"
    by (subst round_double_small [where j = 5]) (simp_all add: nearest_even_def)
  have m: "round_double (21193410011155195 / 16) = 5298352502788799 / 4"
    by (subst round_double_small [where j = 2]) (simp_all add: nearest_even_def)
  have a: "round_double (5298352502788803 / 4) = 5298352502788803 / 4"
    by (subst round_double_small [where j = 2]) (simp_all add: nearest_even_def)
  have r: "round_double (5298352502788799 / 5298352502788803) = 9007199254740985 / 9007199254740992"
    by (subst round_double_small [where j = 53]) (simp_all add: nearest_even_def)
  show ?thesis by (simp add: bayes_step_with_def Let_def d o m a r)
qed

lemma strong_step_24:
  "bayes_step_with round_double (9007199254740985 / 9007199254740992) (5) = Inr (9007199254740991 / 9007199254740992)"
proof -
  have d: "round_double (7 / 9007199254740992) = 7 / 9007199254740992"
    by (subst round_double_small [where j = 103]) (simp_all add: nearest_even_def)
  have o: "round_double (9007199254740985 / 7) = 2573485501354567 / 2"
    by (subst round_double_small [where j = 2]) (simp_all add: nearest_even_def)
  have m: "round_double (12867427506772835 / 2) = 6433713753386418"
    by (subst round_double_small [where j = 0]) (simp_all add: nearest_even_def)
  have a: "round_double (6433713753386419) = 6433713753386419"
    by (subst round_double_small [where j = 0]) (simp_all add: nearest_even_def)
  have r: "round_double (6433713753386418 / 6433713753386419) = 9007199254740991 / 9007199254740992"
    by (subst round_double_small [where j = 53]) (simp_all add: nearest_even_def)
  show ?thesis by (simp add: bayes_step_with_def Let_def d o m a r)
qed

lemma strong_step_25:
  "bayes_step_with round_double (9007199254740991 / 9007199254740992) (5) = Inr (1)"
proof -
  have d: "round_double (1 / 9007199254740992) = 1 / 9007199254740992"
    by (subst round_double_small [where j = 105]) (simp_all add: nearest_even_def)
  have o: "round_double (9007199254740991) = 9007199254740991"
    by (subst round_double_small [where j = 0]) (simp_all add: nearest_even_def)
  have m: "round_double (45035996273704955) = 45035996273704952"
    by (subst round_double_large [where j = 3]) (simp_all add: nearest_even_def)
  have a: "round_double (45035996273704953) = 45035996273704952"
    by (subst round_double_large [where j = 3]) (simp_all add: nearest_even_def)
  have r: "round_double (1) = 1"
    by (subst round_double_small [where j = 52]) (simp_all add: nearest_even_def)
  show ?thesis by (simp add: bayes_step_with_def Let_def d o m a r)
qed

lemma strong_step_26:
  "bayes_step_with round_double (1) (5) = Inl ZeroDivisionError"
  by (simp add: bayes_step_with_def round_double_zero)







text \<open>
  Claim C8 fails on the code.  With twenty-five domains of likelihood ratio 5 the last
  posterior is exactly \<open>1.0\<close>, which is not strictly below 1, and with a twenty-sixth
  domain the division by \<open>1 - posterior\<close> raises \<open>ZeroDivisionError\<close>: the update has no
  case for a posterior that has rounded to 1.
\<close>

theorem bayes_posterior_saturates:
  "length strong_domains = 26 \<and> distinct (map fst strong_domains) \<and>
   map_sum id snd (bayesian_convergence (take 25 strong_domains)) = Inr 1 \<and>
   bayesian_convergence strong_domains = Inl ZeroDivisionError"
  by (simp add: strong_domains_def bayesian_convergence_def prior_value and_then_def
      strong_step_1 strong_step_2 strong_step_3 strong_step_4 strong_step_5 strong_step_6 strong_step_7 strong_step_8 strong_step_9 strong_step_10 strong_step_11 strong_step_12 strong_step_13 strong_step_14 strong_step_15 strong_step_16 strong_step_17 strong_step_18 strong_step_19 strong_step_20 strong_step_21 strong_step_22 strong_step_23 strong_step_24 strong_step_25 strong_step_26)

end
